theory Spec2Isabelle
  imports Main "HOL-Library.Word" "HOL-Library.Sublist" "HOL-Library.Multiset"
begin

section \<open>JavaScript strings\<close>

text \<open>
  A JavaScript string is a sequence of UTF-16 code units: \<open>length\<close> counts code units,
  \<open>substring\<close> cuts at code-unit indices and \<open>===\<close> compares code unit by code unit.
  The model therefore takes a string to be a list of 16-bit words.  \<open>ascii\<close> writes a
  string literal of the source that only uses ASCII characters.
\<close>

type_synonym code_unit = "16 word"
type_synonym jsstring = "code_unit list"

definition ascii :: "string \<Rightarrow> jsstring" where
  "ascii s = map (\<lambda>c. of_nat (of_char c)) s"

text \<open>\<open>s.substring(i)\<close> and \<open>s.substring(0, n)\<close> for indices \<open>0 \<le> i\<close>, \<open>0 \<le> n\<close>: both clamp
  at the length of the string, as \<open>drop\<close> and \<open>take\<close> do.\<close>

definition substring_from :: "jsstring \<Rightarrow> nat \<Rightarrow> jsstring" where
  "substring_from s i = drop i s"

definition substring_to :: "jsstring \<Rightarrow> nat \<Rightarrow> jsstring" where
  "substring_to s n = take n s"

text \<open>\<open>s.indexOf(p)\<close>: the least index at which \<open>p\<close> occurs in \<open>s\<close>; \<open>None\<close> stands
  for the result -1.  \<open>s.includes(p)\<close> is \<open>s.indexOf(p) !== -1\<close>.\<close>

fun indexOf :: "jsstring \<Rightarrow> jsstring \<Rightarrow> nat option" where
  "indexOf [] p = (if p = [] then Some 0 else None)"
| "indexOf (c # s) p =
     (if prefix p (c # s) then Some 0 else map_option Suc (indexOf s p))"

definition includesStr :: "jsstring \<Rightarrow> jsstring \<Rightarrow> bool" where
  "includesStr s p = (indexOf s p \<noteq> None)"

text \<open>
  \<open>GetSubstitution\<close> of ECMAScript for a string pattern (no capture groups): in the
  replacement text, \<open>$$\<close> stands for a dollar sign, \<open>$&\<close> for the matched text, \<open>$`\<close> for the
  text before the match and \<open>$'\<close> for the text after it; every other code unit stands for
  itself.
\<close>

fun getSubstitution :: "jsstring \<Rightarrow> jsstring \<Rightarrow> nat \<Rightarrow> jsstring \<Rightarrow> jsstring" where
  "getSubstitution matched str pos [] = []"
| "getSubstitution matched str pos [c] = [c]"
| "getSubstitution matched str pos (c # d # r) =
     (if c = 0x24 \<and> d = 0x24 then 0x24 # getSubstitution matched str pos r
      else if c = 0x24 \<and> d = 0x26 then matched @ getSubstitution matched str pos r
      else if c = 0x24 \<and> d = 0x60 then take pos str @ getSubstitution matched str pos r
      else if c = 0x24 \<and> d = 0x27
        then drop (pos + length matched) str @ getSubstitution matched str pos r
      else c # getSubstitution matched str pos (d # r))"

text \<open>\<open>s.replace(p, v)\<close> with a string pattern: the first occurrence only.\<close>

definition replace :: "jsstring \<Rightarrow> jsstring \<Rightarrow> jsstring \<Rightarrow> jsstring" where
  "replace s p v =
     (case indexOf s p of
        None \<Rightarrow> s
      | Some i \<Rightarrow> take i s @ getSubstitution p s i v @ drop (i + length p) s)"

text \<open>\<open>WhiteSpace\<close> and \<open>LineTerminator\<close> code units, which \<open>trim\<close> and \<open>parseInt\<close> strip.\<close>

definition isWhiteSpace :: "code_unit \<Rightarrow> bool" where
  "isWhiteSpace c \<longleftrightarrow>
     c \<in> {0x09, 0x0A, 0x0B, 0x0C, 0x0D, 0x20, 0xA0, 0x1680, 0x2028, 0x2029, 0x202F,
           0x205F, 0x3000, 0xFEFF} \<or> (0x2000 \<le> c \<and> c \<le> 0x200A)"

definition trim :: "jsstring \<Rightarrow> jsstring" where
  "trim s = rev (dropWhile isWhiteSpace (rev (dropWhile isWhiteSpace s)))"

text \<open>
  The Number that \<open>parseInt\<close> returns.  An integer of absolute value below \<open>2^53\<close> is a
  Number, and \<open>parseInt\<close> returns it as it is.  From \<open>2^53\<close> on the engine rounds the
  integer to a double (which may be \<open>Infinity\<close>), and from 21 digits on it may approximate
  it; of such a result the model keeps only on which side it lies: \<open>Huge\<close> is some Number
  that is at least \<open>2^53\<close>, \<open>Minus_huge\<close> is some Number that is at most \<open>-2^53\<close>.
\<close>

datatype number = NaN | Number int | Huge | Minus_huge

definition toNumber :: "int \<Rightarrow> number" where
  "toNumber x = (if \<bar>x\<bar> < 2 ^ 53 then Number x else if 0 < x then Huge else Minus_huge)"

text \<open>
  \<open>parseInt(text)\<close> without a radix: leading white space is skipped, one sign is read, a
  prefix \<open>0x\<close> or \<open>0X\<close> selects radix 16 (radix 10 otherwise), and the longest run of digits
  of that radix is the number; what follows the digits is ignored.  With no digit the
  result is \<open>NaN\<close>.
\<close>

definition digitValue :: "code_unit \<Rightarrow> nat option" where
  "digitValue c =
     (if 0x30 \<le> c \<and> c \<le> 0x39 then Some (unat c - 0x30)
      else if 0x61 \<le> c \<and> c \<le> 0x7A then Some (unat c - 0x61 + 10)
      else if 0x41 \<le> c \<and> c \<le> 0x5A then Some (unat c - 0x41 + 10)
      else None)"

definition isRadixDigit :: "nat \<Rightarrow> code_unit \<Rightarrow> bool" where
  "isRadixDigit R c = (case digitValue c of None \<Rightarrow> False | Some d \<Rightarrow> d < R)"

definition mathInt :: "nat \<Rightarrow> jsstring \<Rightarrow> nat" where
  "mathInt R Z = foldl (\<lambda>acc c. acc * R + the (digitValue c)) 0 Z"

definition parseInt :: "jsstring \<Rightarrow> number" where
  "parseInt inputString =
     (let S = dropWhile isWhiteSpace inputString;
          sign = (if S \<noteq> [] \<and> hd S = 0x2D then - 1 else 1 :: int);
          S1 = (if S \<noteq> [] \<and> (hd S = 0x2B \<or> hd S = 0x2D) then tl S else S);
          hex = (2 \<le> length S1 \<and> (take 2 S1 = [0x30, 0x78] \<or> take 2 S1 = [0x30, 0x58]));
          R = (if hex then 16 else 10);
          S2 = (if hex then drop 2 S1 else S1);
          Z = takeWhile (isRadixDigit R) S2
      in if Z = [] then NaN else toNumber (sign * int (mathInt R Z)))"

text \<open>\<open>n.toString()\<close> and \<open>String(n)\<close> for an integer \<open>n\<close>: decimal digits, with a minus sign
  in front of a negative number.  This is the text of a Number of absolute value below
  \<open>10^21\<close>; the program prints a count of messages and an age between 1 and 120.\<close>

fun natToString :: "nat \<Rightarrow> jsstring" where
  "natToString n =
     (if n < 10 then [of_nat (0x30 + n)]
      else natToString (n div 10) @ [of_nat (0x30 + n mod 10)])"

declare natToString.simps [simp del]

definition toString :: "int \<Rightarrow> jsstring" where
  "toString n = (if n < 0 then 0x2D # natToString (nat (- n)) else natToString (nat n))"

section \<open>Constants\<close>

text \<open>\<open>MessageConstants\<close>, as UTF-16 code units.\<close>

definition WELCOME :: jsstring where
  "WELCOME = [0x3053, 0x3093, 0x306B, 0x3061, 0x306F, 0xFF01, 0x300C, 0x767B, 0x9332, 0x300D,
     0x3068, 0x5165, 0x529B, 0x3059, 0x308B, 0x3068, 0x767B, 0x9332, 0x3092, 0x958B, 0x59CB,
     0x3067, 0x304D, 0x307E, 0x3059, 0x3002]"

definition ERROR :: jsstring where
  "ERROR = [0x30A8, 0x30E9, 0x30FC, 0x304C, 0x767A, 0x751F, 0x3057, 0x307E, 0x3057, 0x305F,
     0x3002]"

definition HELP :: jsstring where
  "HELP = [0x30D8, 0x30EB, 0x30D7, 0x30E1, 0x30C3, 0x30BB, 0x30FC, 0x30B8, 0x3067, 0x3059,
     0x3002]"

definition ANALYSIS_CONTINUED :: jsstring where
  "ANALYSIS_CONTINUED = [0x000A, 0x000A, 0x0028, 0x524D, 0x306E, 0x30E1, 0x30C3, 0x30BB,
     0x30FC, 0x30B8, 0x306E, 0x7D9A, 0x304D, 0x0029]"

definition DEFAULT_RESPONSE :: jsstring where
  "DEFAULT_RESPONSE = [0x30C7, 0x30D5, 0x30A9, 0x30EB, 0x30C8, 0x306E, 0x5FDC, 0x7B54, 0x3067,
     0x3059, 0x3002]"

definition REGISTRATION_START :: jsstring where
  "REGISTRATION_START = [0x767B, 0x9332, 0x3092, 0x958B, 0x59CB, 0x3057, 0x307E, 0x3059,
     0x3002, 0x540D, 0x524D, 0x3092, 0x6559, 0x3048, 0x3066, 0x304F, 0x3060, 0x3055, 0x3044,
     0x3002]"

definition INVALID_NAME :: jsstring where
  "INVALID_NAME = [0x540D, 0x524D, 0x306F, 0x0032, 0x6587, 0x5B57, 0x4EE5, 0x4E0A, 0x3067,
     0x5165, 0x529B, 0x3057, 0x3066, 0x304F, 0x3060, 0x3055, 0x3044, 0x3002]"

definition NAME_CONFIRMED :: jsstring where
  "NAME_CONFIRMED = [0x540D, 0x524D, 0x300C, 0x007B, 0x006E, 0x0061, 0x006D, 0x0065, 0x007D,
     0x300D, 0x3092, 0x78BA, 0x8A8D, 0x3057, 0x307E, 0x3057, 0x305F, 0x3002, 0x5E74, 0x9F62,
     0x3092, 0x6559, 0x3048, 0x3066, 0x304F, 0x3060, 0x3055, 0x3044, 0x3002]"

definition INVALID_AGE :: jsstring where
  "INVALID_AGE = [0x5E74, 0x9F62, 0x306F, 0x0031, 0x304B, 0x3089, 0x0031, 0x0032, 0x0030,
     0x306E, 0x7BC4, 0x56F2, 0x3067, 0x5165, 0x529B, 0x3057, 0x3066, 0x304F, 0x3060, 0x3055,
     0x3044, 0x3002]"

definition REGISTRATION_COMPLETED :: jsstring where
  "REGISTRATION_COMPLETED = [0x767B, 0x9332, 0x304C, 0x5B8C, 0x4E86, 0x3057, 0x307E, 0x3057,
     0x305F, 0xFF01, 0x000A, 0x000A, 0x540D, 0x524D, 0x003A, 0x0020, 0x007B, 0x006E, 0x0061,
     0x006D, 0x0065, 0x007D, 0x000A, 0x5E74, 0x9F62, 0x003A, 0x0020, 0x007B, 0x0061, 0x0067,
     0x0065, 0x007D]"

text \<open>The two keywords that \<open>TextHandler\<close> compares the text with: the register keyword
  (two code units) and the help keyword (three code units).\<close>

definition KEYWORD_REGISTER :: jsstring where
  "KEYWORD_REGISTER = [0x767B, 0x9332]"

definition KEYWORD_HELP :: jsstring where
  "KEYWORD_HELP = [0x30D8, 0x30EB, 0x30D7]"

text \<open>Modelled from the spec: \<open>StatusConstants.INITIAL\<close>.  The file
  \<open>constants/statusConstants\<close> is imported by \<open>user.ts\<close> and \<open>textHandler.ts\<close> and is not
  among the sources; the spec names four conversation states, INITIAL, WAITING_NAME,
  WAITING_AGE and REGISTERED, which are taken to be four different strings.\<close>

definition INITIAL :: jsstring where
  "INITIAL = ascii ''INITIAL''"

text \<open>Modelled from the spec: \<open>StatusConstants.WAITING_NAME\<close>, the state in which the name
  is awaited.\<close>

definition WAITING_NAME :: jsstring where
  "WAITING_NAME = ascii ''WAITING_NAME''"

text \<open>Modelled from the spec: \<open>StatusConstants.WAITING_AGE\<close>, the state in which the age
  is awaited.\<close>

definition WAITING_AGE :: jsstring where
  "WAITING_AGE = ascii ''WAITING_AGE''"

text \<open>Modelled from the spec: \<open>StatusConstants.REGISTERED\<close>, the state after the
  registration.\<close>

definition REGISTERED :: jsstring where
  "REGISTERED = ascii ''REGISTERED''"

section \<open>MessageFormatter\<close>

text \<open>
  \<open>MessageFormatter.format\<close>.  The parameters are given as the list of the object's
  entries in the order of \<open>Object.keys\<close>.  The inner loop
  \<^verbatim>\<open>while (result.includes(placeholder)) result = result.replace(placeholder, value)\<close>
  has no bound of its own, so it is a partial function: \<open>None\<close> is a loop that never
  ends.  The model puts no bound on the length of a text.  A value that gives the same
  text back, such as the placeholder itself, keeps the loop running on every engine.  A
  value that makes the text longer at every round is a loop without end here as well;
  an engine that bounds the length of a string ends that loop with a \<open>RangeError\<close>, which
  the model does not have.
\<close>

definition placeholder :: "jsstring \<Rightarrow> jsstring" where
  "placeholder key = 0x7B # key @ [0x7D]"

partial_function (option) format_while :: "jsstring \<Rightarrow> jsstring \<Rightarrow> jsstring \<Rightarrow> jsstring option"
  where
  "format_while ph v result =
     (if includesStr result ph then format_while ph v (replace result ph v) else Some result)"

declare format_while.simps [code]

fun format_forEach :: "(jsstring \<times> jsstring) list \<Rightarrow> jsstring \<Rightarrow> jsstring option" where
  "format_forEach [] result = Some result"
| "format_forEach ((key, v) # params) result =
     (case format_while (placeholder key) v result of
        None \<Rightarrow> None
      | Some result' \<Rightarrow> format_forEach params result')"

definition format :: "jsstring \<Rightarrow> (jsstring \<times> jsstring) list \<Rightarrow> jsstring option" where
  "format template params = format_forEach params template"

section \<open>Data model\<close>

text \<open>\<open>LineEvent\<close> and its parts (\<open>models/lineEvent.ts\<close>), with the fields that the handlers
  and the factory read.\<close>

datatype event_type =
  EvMessage | EvFollow | EvUnfollow | EvJoin | EvLeave | EvMemberJoined | EvMemberLeft
  | EvPostback | EvBeacon | EvAccountLink | EvThings

datatype message_type =
  MsgText | MsgImage | MsgVideo | MsgAudio | MsgFile | MsgLocation | MsgSticker

datatype source_type = SrcUser | SrcGroup | SrcRoom

record line_source =
  src_type :: source_type
  src_userId :: "jsstring option"

record line_message =
  msg_id :: jsstring
  msg_type :: message_type
  msg_text :: "jsstring option"

record line_postback =
  pb_data :: jsstring

record line_event =
  ev_type :: event_type
  ev_replyToken :: "jsstring option"
  ev_source :: line_source
  ev_timestamp :: nat
  ev_message :: "line_message option"
  ev_postback :: "line_postback option"

text \<open>A thrown \<open>Error\<close> carries its message.\<close>

datatype error = Error jsstring

fun error_message :: "error \<Rightarrow> jsstring" where
  "error_message (Error m) = m"

text \<open>
  \<open>UserData\<close>: the attributes collected by the registration flow.  In the sheet the object
  is a JSON text (\<open>JSON.stringify\<close> on writing, \<open>JSON.parse\<close> on reading); the model keeps
  the object itself in the cell, that is, it takes the two conversions to be inverse to
  each other.
\<close>

record user_data =
  d_name :: "jsstring option"
  d_age :: "int option"

text \<open>\<open>{ ...data, ...newData }\<close>: a key of \<open>newData\<close> wins, every other key is kept.\<close>

definition spread :: "user_data \<Rightarrow> user_data \<Rightarrow> user_data" where
  "spread old new =
     \<lparr>d_name = (case d_name new of None \<Rightarrow> d_name old | Some v \<Rightarrow> Some v),
      d_age = (case d_age new of None \<Rightarrow> d_age old | Some v \<Rightarrow> Some v)\<rparr>"

text \<open>
  \<open>UserRow\<close> is the array \<open>[userId, displayName, state, data, createdAt, updatedAt]\<close>.
  \<open>saveUserData\<close> tests \<open>userData.length <= 5\<close>, so the sixth element has three shapes:
  it is missing (the array has five elements), it is \<open>null\<close>, or it is a date.  Dates are
  milliseconds since the epoch.
\<close>

datatype updated_col = Missing | Unset | Stamp nat

record user_row =
  col_userId :: jsstring
  col_displayName :: "jsstring option"
  col_state :: jsstring
  col_data :: user_data
  col_createdAt :: nat
  col_updatedAt :: updated_col

definition row_length :: "user_row \<Rightarrow> nat" where
  "row_length r = (if col_updatedAt r = Missing then 5 else 6)"

definition push_Date :: "user_row \<Rightarrow> nat \<Rightarrow> user_row" where
  "push_Date r t = (if col_updatedAt r = Missing then r\<lparr>col_updatedAt := Stamp t\<rparr> else r)"

text \<open>\<open>MessageRow\<close> is \<open>[userId, type, content, timestamp]\<close>; the content is the JSON text of
  an object, kept here as the list of its entries.  A row of the Logs sheet is
  \<open>[timestamp, level, message]\<close>.\<close>

record message_row =
  mcol_userId :: jsstring
  mcol_type :: jsstring
  mcol_content :: "(jsstring \<times> jsstring) list"
  mcol_timestamp :: nat

record log_row =
  lcol_timestamp :: nat
  lcol_level :: jsstring
  lcol_message :: jsstring

text \<open>Requests to the messaging platform: the URL and the payload object of \<open>post\<close>.\<close>

datatype payload =
  ReplyPayload jsstring jsstring
  | PushPayload jsstring jsstring
  | LoadingPayload jsstring nat

record request =
  req_url :: jsstring
  req_payload :: payload

record response =
  code :: nat
  body :: jsstring

datatype fetch_result = Returns response | Throws jsstring

datatype console_method = ConsoleLog | ConsoleWarn | ConsoleError

text \<open>
  The state that the program reads and writes:
  \<^item> \<open>spreadsheetId\<close> of the \<open>SpreadsheetService\<close> singleton;
  \<^item> \<open>medium_fault\<close>: when it is \<open>Some m\<close>, opening the spreadsheet throws an error with
    message \<open>m\<close> (the storage medium is out of reach);
  \<^item> the data rows of the three sheets, below their header rows (a missing sheet is
    created with its header by \<open>ensureSheetExists\<close>, which leaves no data row);
  \<^item> whether the \<open>Logger\<close> singleton has been initialised, and what was written to the
    console;
  \<^item> the clock that \<open>new Date()\<close> reads and \<open>Utilities.sleep\<close> advances;
  \<^item> the requests handed to \<open>UrlFetchApp.fetch\<close> so far, in order, and what the fetch of
    the \<open>n\<close>-th request does (it returns a response or throws).
\<close>

record world =
  spreadsheetId :: "jsstring option"
  medium_fault :: "jsstring option"
  Users :: "user_row list"
  Messages :: "message_row list"
  Logs :: "log_row list"
  logger_isInitialized :: bool
  console :: "(console_method \<times> jsstring) list"
  clock :: nat
  fetch_results :: "nat \<Rightarrow> fetch_result"
  requests :: "request list"

section \<open>Logger and the audit log\<close>

definition console_write :: "console_method \<Rightarrow> jsstring \<Rightarrow> world \<Rightarrow> world" where
  "console_write m text w = w\<lparr>console := console w @ [(m, text)]\<rparr>"

text \<open>\<open>SpreadsheetService.getSpreadsheet\<close>: throws when the id is \<open>null\<close> or empty.\<close>

definition getSpreadsheet :: "world \<Rightarrow> error + unit" where
  "getSpreadsheet w =
     (if spreadsheetId w = None \<or> spreadsheetId w = Some [] then
        Inl (Error (ascii ''Spreadsheet ID is not set''))
      else case medium_fault w of
             Some m \<Rightarrow> Inl (Error m)
           | None \<Rightarrow> Inr ())"

text \<open>\<open>SpreadsheetService.saveLog\<close>: never throws.\<close>

definition saveLog :: "jsstring \<Rightarrow> jsstring \<Rightarrow> world \<Rightarrow> world" where
  "saveLog level message w =
     (if spreadsheetId w = None \<or> spreadsheetId w = Some [] then w
      else case getSpreadsheet w of
             Inl e \<Rightarrow>
               console_write ConsoleError
                 (ascii ''Failed to save log to sheet: '' @ error_message e) w
           | Inr _ \<Rightarrow>
               w\<lparr>Logs := Logs w @
                  [\<lparr>lcol_timestamp = clock w, lcol_level = level, lcol_message = message\<rparr>]\<rparr>)"

definition saveToSheet :: "jsstring \<Rightarrow> jsstring \<Rightarrow> world \<Rightarrow> world" where
  "saveToSheet level message w =
     (if logger_isInitialized w then saveLog level message w else w)"

definition Logger_log :: "jsstring \<Rightarrow> world \<Rightarrow> world" where
  "Logger_log message w =
     saveToSheet (ascii ''INFO'') message
       (console_write ConsoleLog (ascii ''[INFO] '' @ message) w)"

definition Logger_error :: "jsstring \<Rightarrow> world \<Rightarrow> world" where
  "Logger_error message w =
     saveToSheet (ascii ''ERROR'') message
       (console_write ConsoleError (ascii ''[ERROR] '' @ message) w)"

section \<open>SpreadsheetService\<close>

text \<open>
  \<open>findUserRow\<close> scans \<open>values\<close> from index 1 (index 0 is the header row) and returns the
  sheet's row number \<open>i + 1\<close> of the first row whose first cell is the user id, or 0.
  The list argument is \<open>values\<close> from index \<open>i\<close> on.
\<close>

fun findUserRow_for :: "nat \<Rightarrow> user_row list \<Rightarrow> jsstring \<Rightarrow> nat" where
  "findUserRow_for i [] userId = 0"
| "findUserRow_for i (r # rs) userId =
     (if col_userId r = userId then i + 1 else findUserRow_for (i + 1) rs userId)"

definition findUserRow :: "user_row list \<Rightarrow> jsstring \<Rightarrow> nat" where
  "findUserRow rows userId = findUserRow_for 1 rows userId"

text \<open>\<open>getRange(row, 1, 1, n).setValues([userData])\<close> and \<open>getRange(row, 1, 1, 6).getValues()[0]\<close>
  for a row number of \<open>findUserRow\<close>: sheet row 2 is the first data row.  Six cells are
  read, so a missing sixth cell reads as an empty one.  A cell is taken to read back as
  it was written, with \<open>null\<close> and the empty cell being the same value.\<close>

definition setValues :: "nat \<Rightarrow> user_row \<Rightarrow> user_row list \<Rightarrow> user_row list" where
  "setValues row userData rows = rows[row - 2 := userData]"

definition getValues :: "nat \<Rightarrow> user_row list \<Rightarrow> user_row" where
  "getValues row rows =
     (let r = rows ! (row - 2)
      in if col_updatedAt r = Missing then r\<lparr>col_updatedAt := Unset\<rparr> else r)"

definition saveUserData :: "user_row \<Rightarrow> world \<Rightarrow> (error + unit) \<times> world" where
  "saveUserData userData w =
     (case getSpreadsheet w of
        Inl e \<Rightarrow>
          (Inl e,
           console_write ConsoleError (ascii ''Error saving user data: '' @ error_message e) w)
      | Inr _ \<Rightarrow>
          (let userId = col_userId userData;
               existingRow = findUserRow (Users w) userId
           in if existingRow > 0 then
                (let userData' =
                       (if row_length userData \<le> 5 then push_Date userData (clock w)
                        else userData)
                 in (Inr (), w\<lparr>Users := setValues existingRow userData' (Users w)\<rparr>))
              else
                (let userData' =
                       (if row_length userData \<le> 5 then push_Date userData (clock w)
                        else userData)
                 in (Inr (), w\<lparr>Users := Users w @ [userData']\<rparr>))))"

definition getUserDataByUserId :: "jsstring \<Rightarrow> world \<Rightarrow> (error + user_row option) \<times> world"
  where
  "getUserDataByUserId userId w =
     (case getSpreadsheet w of
        Inl e \<Rightarrow>
          (Inl e,
           console_write ConsoleError (ascii ''Error getting user data: '' @ error_message e) w)
      | Inr _ \<Rightarrow>
          (let row = findUserRow (Users w) userId
           in if row > 0 then (Inr (Some (getValues row (Users w))), w)
              else (Inr None, w)))"

definition saveMessageData :: "message_row \<Rightarrow> world \<Rightarrow> (error + unit) \<times> world" where
  "saveMessageData messageData w =
     (case getSpreadsheet w of
        Inl e \<Rightarrow>
          (Inl e,
           console_write ConsoleError
             (ascii ''Error saving message data: '' @ error_message e) w)
      | Inr _ \<Rightarrow> (Inr (), w\<lparr>Messages := Messages w @ [messageData]\<rparr>))"

text \<open>
  \<open>getMessagesByUserId\<close>.  \<open>Array.prototype.sort\<close> is a stable sort; the comparator
  \<open>dateB.getTime() - dateA.getTime()\<close> puts the later timestamp first, which is an
  ascending stable sort on the negated timestamp.  \<open>slice(0, limit)\<close> takes the first
  \<open>limit\<close> elements for \<open>limit \<ge> 0\<close> and drops the last \<open>- limit\<close> elements for a negative
  \<open>limit\<close>.  The parameter defaults to 10 (\<open>None\<close> is the call without the argument).
\<close>

definition sort_newest_first :: "message_row list \<Rightarrow> message_row list" where
  "sort_newest_first messages = sort_key (\<lambda>r. - int (mcol_timestamp r)) messages"

definition slice0 :: "'a list \<Rightarrow> int \<Rightarrow> 'a list" where
  "slice0 xs n = (if 0 \<le> n then take (nat n) xs else take (length xs - nat (- n)) xs)"

definition getMessagesByUserId ::
  "jsstring \<Rightarrow> int option \<Rightarrow> world \<Rightarrow> (error + message_row list) \<times> world" where
  "getMessagesByUserId userId limit_arg w =
     (let limit = (case limit_arg of None \<Rightarrow> 10 | Some n \<Rightarrow> n)
      in case getSpreadsheet w of
           Inl e \<Rightarrow>
             (Inl e,
              console_write ConsoleError (ascii ''Error getting messages: '' @ error_message e) w)
         | Inr _ \<Rightarrow>
             (let messages = filter (\<lambda>row. mcol_userId row = userId) (Messages w)
              in (Inr (slice0 (sort_newest_first messages) limit), w)))"

section \<open>The models User and Message\<close>

record user =
  userId :: jsstring
  displayName :: "jsstring option"
  state :: jsstring
  data :: user_data
  createdAt :: nat
  updatedAt :: "nat option"

text \<open>\<open>new User(userId, displayName)\<close>.\<close>

definition new_User :: "jsstring \<Rightarrow> jsstring option \<Rightarrow> world \<Rightarrow> user" where
  "new_User uid dn w =
     \<lparr>userId = uid, displayName = dn, state = INITIAL,
      data = \<lparr>d_name = None, d_age = None\<rparr>, createdAt = clock w, updatedAt = None\<rparr>"

text \<open>The row that \<open>User.save\<close> builds: always six elements, the last one
  \<open>this.updatedAt || null\<close>.\<close>

definition user_to_row :: "user \<Rightarrow> user_row" where
  "user_to_row u =
     \<lparr>col_userId = userId u, col_displayName = displayName u, col_state = state u,
      col_data = data u, col_createdAt = createdAt u,
      col_updatedAt = (case updatedAt u of None \<Rightarrow> Unset | Some t \<Rightarrow> Stamp t)\<rparr>"

text \<open>\<open>User.save\<close>: an error of the store is caught, logged and turned into \<open>false\<close>.\<close>

definition User_save :: "user \<Rightarrow> world \<Rightarrow> bool \<times> world" where
  "User_save u w =
     (case saveUserData (user_to_row u) w of
        (Inr _, w') \<Rightarrow> (True, w')
      | (Inl e, w') \<Rightarrow> (False, Logger_error (ascii ''User save error: '' @ error_message e) w'))"

text \<open>\<open>User.findByUserId\<close>: \<open>updatedAt\<close> is taken from the row only when the cell is
  truthy; an error of the store is caught, logged and turned into \<open>null\<close>.\<close>

definition row_to_user :: "user_row \<Rightarrow> user" where
  "row_to_user userData =
     \<lparr>userId = col_userId userData, displayName = col_displayName userData,
      state = col_state userData, data = col_data userData,
      createdAt = col_createdAt userData,
      updatedAt = (case col_updatedAt userData of Stamp t \<Rightarrow> Some t | _ \<Rightarrow> None)\<rparr>"

definition User_findByUserId :: "jsstring \<Rightarrow> world \<Rightarrow> user option \<times> world" where
  "User_findByUserId uid w =
     (case getUserDataByUserId uid w of
        (Inl e, w') \<Rightarrow> (None, Logger_error (ascii ''Find user error: '' @ error_message e) w')
      | (Inr None, w') \<Rightarrow> (None, w')
      | (Inr (Some userData), w') \<Rightarrow> (Some (row_to_user userData), w'))"

text \<open>\<open>updateState\<close> and \<open>updateData\<close> change the object, stamp \<open>updatedAt\<close> and save; they
  return the result of \<open>save\<close> and the changed object.\<close>

definition updateState :: "jsstring \<Rightarrow> user \<Rightarrow> world \<Rightarrow> bool \<times> user \<times> world" where
  "updateState newState u w =
     (let u' = u\<lparr>state := newState, updatedAt := Some (clock w)\<rparr>;
          (ok, w') = User_save u' w
      in (ok, u', w'))"

definition updateData :: "user_data \<Rightarrow> user \<Rightarrow> world \<Rightarrow> bool \<times> user \<times> world" where
  "updateData newData u w =
     (let u' = u\<lparr>data := spread (data u) newData, updatedAt := Some (clock w)\<rparr>;
          (ok, w') = User_save u' w
      in (ok, u', w'))"

text \<open>\<open>new Message(userId, type, content)\<close> followed by \<open>save\<close>.\<close>

definition new_Message ::
  "jsstring \<Rightarrow> jsstring \<Rightarrow> (jsstring \<times> jsstring) list \<Rightarrow> world \<Rightarrow> message_row" where
  "new_Message uid ty content w =
     \<lparr>mcol_userId = uid, mcol_type = ty, mcol_content = content, mcol_timestamp = clock w\<rparr>"

definition Message_save :: "message_row \<Rightarrow> world \<Rightarrow> bool \<times> world" where
  "Message_save m w =
     (case saveMessageData m w of
        (Inr _, w') \<Rightarrow> (True, w')
      | (Inl e, w') \<Rightarrow>
          (False, Logger_error (ascii ''Message save error: '' @ error_message e) w'))"

section \<open>LineService\<close>

definition MAX_MESSAGE_LENGTH :: nat where
  "MAX_MESSAGE_LENGTH = 4000"

text \<open>\<open>UrlFetchApp.fetch\<close>: the request goes out, and the platform's answer to it is what
  the world holds for the request of this number.\<close>

definition UrlFetchApp_fetch :: "request \<Rightarrow> world \<Rightarrow> (error + response) \<times> world" where
  "UrlFetchApp_fetch req w =
     (case fetch_results w (length (requests w)) of
        Returns r \<Rightarrow> (Inr r, w\<lparr>requests := requests w @ [req]\<rparr>)
      | Throws m \<Rightarrow> (Inl (Error m), w\<lparr>requests := requests w @ [req]\<rparr>))"

text \<open>\<open>LineService.post\<close>: the whole fetch is inside \<open>try\<close>, and the \<open>catch\<close> returns the
  object \<open>{code: 500, body: error.message}\<close>.\<close>

definition post :: "jsstring \<Rightarrow> payload \<Rightarrow> world \<Rightarrow> (error + response) \<times> world" where
  "post url pl w =
     (case UrlFetchApp_fetch \<lparr>req_url = url, req_payload = pl\<rparr> w of
        (Inr r, w1) \<Rightarrow>
          (let w2 = Logger_log (ascii ''LINE API response code: '' @ natToString (code r)) w1;
               w3 = (if code r \<ge> 400 then Logger_error (ascii ''LINE API error: '' @ body r) w2
                     else w2)
           in (Inr \<lparr>code = code r, body = body r\<rparr>, w3))
      | (Inl e, w1) \<Rightarrow>
          (let w2 = Logger_error (ascii ''Error in post: '' @ error_message e) w1
           in (Inr \<lparr>code = 500, body = error_message e\<rparr>, w2)))"

definition replyText :: "jsstring \<Rightarrow> jsstring \<Rightarrow> world \<Rightarrow> (error + response) \<times> world" where
  "replyText replyToken text w =
     post (ascii ''https://api.line.me/v2/bot/message/reply'') (ReplyPayload replyToken text) w"

definition pushText :: "jsstring \<Rightarrow> jsstring \<Rightarrow> world \<Rightarrow> (error + response) \<times> world" where
  "pushText uid text w =
     post (ascii ''https://api.line.me/v2/bot/message/push'') (PushPayload uid text) w"

definition Utilities_sleep :: "nat \<Rightarrow> world \<Rightarrow> world" where
  "Utilities_sleep ms w = w\<lparr>clock := clock w + ms\<rparr>"

text \<open>The \<open>while\<close> loop of \<open>sendLongMessage\<close>; it returns \<open>messageCount\<close>.  An exception
  of \<open>pushText\<close> leaves the loop.\<close>

function sendLongMessage_while ::
  "jsstring \<Rightarrow> jsstring \<Rightarrow> nat \<Rightarrow> world \<Rightarrow> (error + nat) \<times> world" where
  "sendLongMessage_while uid remainingText messageCount w =
     (if length remainingText > 0 then
        (let w1 = Utilities_sleep 500 w;
             currentPart =
               (if length remainingText > MAX_MESSAGE_LENGTH
                then substring_to remainingText MAX_MESSAGE_LENGTH else remainingText)
         in case pushText uid (ANALYSIS_CONTINUED @ currentPart) w1 of
              (Inl e, w2) \<Rightarrow> (Inl e, w2)
            | (Inr _, w2) \<Rightarrow>
                sendLongMessage_while uid
                  (substring_from remainingText (length currentPart)) (messageCount + 1) w2)
      else (Inr messageCount, w))"
  by pat_completeness auto
termination
  by (relation "measure (\<lambda>(uid, remainingText, messageCount, w). length remainingText)")
     (auto simp: substring_from_def substring_to_def MAX_MESSAGE_LENGTH_def)

declare sendLongMessage_while.simps [simp del]

definition sendLongMessage_try ::
  "jsstring \<Rightarrow> jsstring \<Rightarrow> jsstring \<Rightarrow> world \<Rightarrow> (error + bool) \<times> world" where
  "sendLongMessage_try uid replyToken text w =
     (if length text \<le> MAX_MESSAGE_LENGTH then
        (case replyText replyToken text w of
           (Inl e, w1) \<Rightarrow> (Inl e, w1)
         | (Inr _, w1) \<Rightarrow> (Inr True, w1))
      else
        (let firstPart = substring_to text MAX_MESSAGE_LENGTH
         in case replyText replyToken firstPart w of
              (Inl e, w1) \<Rightarrow> (Inl e, w1)
            | (Inr _, w1) \<Rightarrow>
                (case sendLongMessage_while uid (substring_from text MAX_MESSAGE_LENGTH) 1 w1 of
                   (Inl e, w2) \<Rightarrow> (Inl e, w2)
                 | (Inr messageCount, w2) \<Rightarrow>
                     (Inr True,
                      Logger_log
                        (ascii ''Sent long message in '' @ natToString messageCount
                           @ ascii '' parts'') w2))))"

definition sendLongMessage :: "jsstring \<Rightarrow> jsstring \<Rightarrow> jsstring \<Rightarrow> world \<Rightarrow> bool \<times> world" where
  "sendLongMessage uid replyToken text w =
     (case sendLongMessage_try uid replyToken text w of
        (Inr b, w') \<Rightarrow> (b, w')
      | (Inl e, w') \<Rightarrow>
          (False, Logger_error (ascii ''Error in sendLongMessage: '' @ error_message e) w'))"

section \<open>TextHandler\<close>

text \<open>The four state handlers return the response text and the world after their
  writes.  A handler that ends with a call of \<open>format\<close> has written the user before the
  call: its response is \<open>None\<close> when \<open>format\<close> does not come back, and its world is the one
  in which \<open>format\<close> was called.  \<open>user.data.name || ''\<close> is the stored name, or the
  empty string when there is none.\<close>

definition name_or_empty :: "user \<Rightarrow> jsstring" where
  "name_or_empty u = (case d_name (data u) of None \<Rightarrow> [] | Some n \<Rightarrow> n)"

definition handleInitialState :: "jsstring \<Rightarrow> user \<Rightarrow> world \<Rightarrow> jsstring option \<times> world" where
  "handleInitialState text u w =
     (if text = KEYWORD_REGISTER then
        (let (ok, u', w') = updateState WAITING_NAME u w in (Some REGISTRATION_START, w'))
      else if text = KEYWORD_HELP then (Some HELP, w)
      else (Some WELCOME, w))"

definition handleWaitingNameState ::
  "jsstring \<Rightarrow> user \<Rightarrow> world \<Rightarrow> jsstring option \<times> world" where
  "handleWaitingNameState text u w =
     (if length (trim text) < 2 then (Some INVALID_NAME, w)
      else
        (let (ok1, u1, w1) = updateData \<lparr>d_name = Some text, d_age = None\<rparr> u w;
             (ok2, u2, w2) = updateState WAITING_AGE u1 w1
         in (format NAME_CONFIRMED [(ascii ''name'', text)], w2)))"

text \<open>The test \<open>isNaN(age) || age < 1 || age > 120\<close> holds of \<open>NaN\<close>, of a Number that is at
  most \<open>-2^53\<close> and of a Number that is at least \<open>2^53\<close>.\<close>

definition handleWaitingAgeState ::
  "jsstring \<Rightarrow> user \<Rightarrow> world \<Rightarrow> jsstring option \<times> world" where
  "handleWaitingAgeState text u w =
     (case parseInt text of
        NaN \<Rightarrow> (Some INVALID_AGE, w)
      | Minus_huge \<Rightarrow> (Some INVALID_AGE, w)
      | Huge \<Rightarrow> (Some INVALID_AGE, w)
      | Number age \<Rightarrow>
          if age < 1 \<or> age > 120 then (Some INVALID_AGE, w)
          else
            (let (ok1, u1, w1) = updateData \<lparr>d_name = None, d_age = Some age\<rparr> u w;
                 (ok2, u2, w2) = updateState REGISTERED u1 w1
             in (format REGISTRATION_COMPLETED
                   [(ascii ''name'', name_or_empty u2), (ascii ''age'', toString age)], w2)))"

definition handleRegisteredState ::
  "jsstring \<Rightarrow> user \<Rightarrow> world \<Rightarrow> jsstring option \<times> world" where
  "handleRegisteredState text u w =
     (if text = KEYWORD_HELP then (Some HELP, w)
      else (format DEFAULT_RESPONSE [(ascii ''name'', name_or_empty u)], w))"

definition event_text :: "line_event \<Rightarrow> jsstring option" where
  "event_text event = (case ev_message event of None \<Rightarrow> None | Some m \<Rightarrow> msg_text m)"

text \<open>\<open>User.findByUserId(userId)\<close>, and \<open>new User(userId)\<close> with \<open>save\<close> when there is no
  user; then the \<open>switch\<close> on the state of the user.\<close>

definition find_or_create :: "jsstring \<Rightarrow> world \<Rightarrow> user \<times> world" where
  "find_or_create uid w =
     (let (found, w1) = User_findByUserId uid w
      in case found of
           Some u \<Rightarrow> (u, w1)
         | None \<Rightarrow> (let u = new_User uid None w1; (ok, w2) = User_save u w1 in (u, w2)))"

definition switch_state :: "jsstring \<Rightarrow> user \<Rightarrow> world \<Rightarrow> jsstring option \<times> world" where
  "switch_state text u w =
     (if state u = INITIAL then handleInitialState text u w
      else if state u = WAITING_NAME then handleWaitingNameState text u w
      else if state u = WAITING_AGE then handleWaitingAgeState text u w
      else if state u = REGISTERED then handleRegisteredState text u w
      else (Some ERROR, w))"

text \<open>
  The \<open>try\<close> block of \<open>TextHandler.handle\<close> in two parts.  The first part are its
  statements up to the \<open>switch\<close>: it ends at the guard (\<open>At_guard\<close>), or with the response
  of the \<open>switch\<close> (\<open>At_reply\<close>), or inside a call of \<open>format\<close> that does not come back
  (\<open>In_format\<close>), and gives the world at that point, with everything that was written
  until then.  The results of \<open>message.save()\<close> and \<open>user.save()\<close> are not looked at.
\<close>

datatype reached = At_guard | At_reply jsstring | In_format

definition TextHandler_body :: "line_event \<Rightarrow> world \<Rightarrow> reached \<times> world" where
  "TextHandler_body event w0 =
     (let w1 = Logger_log
                 (ascii ''TextHandler handling message: '' @
                    (case event_text event of None \<Rightarrow> ascii ''undefined'' | Some t \<Rightarrow> t)) w0;
          text = (case event_text event of None \<Rightarrow> [] | Some t \<Rightarrow> t)
      in case src_userId (ev_source event) of
           None \<Rightarrow> (At_guard, w1)
         | Some uid \<Rightarrow>
             if uid = [] \<or> text = [] then (At_guard, w1)
             else
               (let (saved, w2) =
                      Message_save (new_Message uid (ascii ''text'') [(ascii ''text'', text)] w1) w1;
                    (u, w4) = find_or_create uid w2
                in case switch_state text u w4 of
                     (None, w5) \<Rightarrow> (In_format, w5)
                   | (Some response, w5) \<Rightarrow> (At_reply response, w5)))"

text \<open>The second part is the reply.  \<open>None\<close>: the block never ends, because the first part
  does not.\<close>

definition TextHandler_try :: "line_event \<Rightarrow> world \<Rightarrow> ((error + unit) \<times> world) option" where
  "TextHandler_try event w0 =
     (case TextHandler_body event w0 of
        (At_guard, w1) \<Rightarrow> Some (Inr (), w1)
      | (In_format, w5) \<Rightarrow> None
      | (At_reply response, w5) \<Rightarrow>
          (case replyText (case ev_replyToken event of None \<Rightarrow> [] | Some t \<Rightarrow> t) response w5 of
             (Inl e, w6) \<Rightarrow> Some (Inl e, w6)
           | (Inr _, w6) \<Rightarrow> Some (Inr (), w6)))"

text \<open>\<open>TextHandler.handle\<close>: the \<open>try\<close> block and its \<open>catch\<close>, which logs the error and
  replies with the generic error text when the event has a reply token.  \<open>None\<close>: the
  handler does not return; what it has written by then is the world of
  \<open>TextHandler_body\<close>.\<close>

definition TextHandler_handle :: "line_event \<Rightarrow> world \<Rightarrow> world option" where
  "TextHandler_handle event w =
     (case TextHandler_try event w of
        None \<Rightarrow> None
      | Some (Inr _, w') \<Rightarrow> Some w'
      | Some (Inl e, w') \<Rightarrow>
          (let w1 = Logger_error (ascii ''TextHandler error: '' @ error_message e) w'
           in case ev_replyToken event of
                None \<Rightarrow> Some w1
              | Some t \<Rightarrow> if t = [] then Some w1 else Some (snd (replyText t ERROR w1))))"

section \<open>HandlerFactory\<close>

datatype handler = TextHandler | ImageHandler | PostbackHandler | DefaultHandler

definition createHandler :: "line_event \<Rightarrow> handler" where
  "createHandler event =
     (if ev_type event = EvMessage then
        (case map_option msg_type (ev_message event) of
           Some MsgText \<Rightarrow> TextHandler
         | Some MsgImage \<Rightarrow> ImageHandler
         | _ \<Rightarrow> DefaultHandler)
      else if ev_type event = EvPostback then PostbackHandler
      else DefaultHandler)"

section \<open>Observations used in the statements\<close>

text \<open>The requests that \<open>replyText\<close> and \<open>pushText\<close> hand to the transport, and the text
  of a request.\<close>

definition reply_request :: "jsstring \<Rightarrow> jsstring \<Rightarrow> request" where
  "reply_request token text =
     \<lparr>req_url = ascii ''https://api.line.me/v2/bot/message/reply'',
      req_payload = ReplyPayload token text\<rparr>"

definition push_request :: "jsstring \<Rightarrow> jsstring \<Rightarrow> request" where
  "push_request uid text =
     \<lparr>req_url = ascii ''https://api.line.me/v2/bot/message/push'',
      req_payload = PushPayload uid text\<rparr>"

definition request_text :: "request \<Rightarrow> jsstring" where
  "request_text req =
     (case req_payload req of
        ReplyPayload token text \<Rightarrow> text
      | PushPayload uid text \<Rightarrow> text
      | LoadingPayload uid n \<Rightarrow> [])"

definition strip_marker :: "jsstring \<Rightarrow> jsstring" where
  "strip_marker text = drop (length ANALYSIS_CONTINUED) text"

text \<open>The slices of a text: up to \<open>n\<close> units are taken from the remainder until the
  remainder is exhausted.\<close>

function slices :: "nat \<Rightarrow> 'a list \<Rightarrow> 'a list list" where
  "slices n xs = (if n = 0 \<or> xs = [] then [] else take n xs # slices n (drop n xs))"
  by pat_completeness auto
termination
  by (relation "measure (\<lambda>(n, xs). length xs)") auto

declare slices.simps [simp del]

text \<open>A world in which the store is set up and empty, the logger is initialised and the
  platform answers every request with code 200.\<close>

definition idle_world :: world where
  "idle_world =
     \<lparr>spreadsheetId = Some (ascii ''sheet-1''), medium_fault = None, Users = [], Messages = [],
      Logs = [], logger_isInitialized = True, console = [], clock = 0,
      fetch_results = (\<lambda>n. Returns \<lparr>code = 200, body = ascii ''{}''\<rparr>), requests = []\<rparr>"

text \<open>The same world with the platform out of reach: every fetch throws.\<close>

definition offline_world :: world where
  "offline_world = idle_world\<lparr>fetch_results := (\<lambda>n. Throws (ascii ''timeout''))\<rparr>"

text \<open>The rows of the Messages sheet that belong to a user, in the order of the sheet.\<close>

definition messages_of :: "jsstring \<Rightarrow> world \<Rightarrow> message_row list" where
  "messages_of uid w = filter (\<lambda>row. mcol_userId row = uid) (Messages w)"

text \<open>A text message row of a user at a given time, and a world whose Messages sheet
  holds three messages of user U1 (at the times 20, 30 and 10, in this order) with a
  message of user U2 between them.\<close>

definition text_row :: "string \<Rightarrow> string \<Rightarrow> nat \<Rightarrow> message_row" where
  "text_row uid t ts =
     \<lparr>mcol_userId = ascii uid, mcol_type = ascii ''text'',
      mcol_content = [(ascii ''text'', ascii t)], mcol_timestamp = ts\<rparr>"

definition history_world :: world where
  "history_world =
     idle_world\<lparr>Messages :=
       [text_row ''U1'' ''b'' 20, text_row ''U2'' ''x'' 25, text_row ''U1'' ''c'' 30,
        text_row ''U1'' ''a'' 10]\<rparr>"

text \<open>The position among the data rows of the first row with the given user id (the
  number of rows before it).\<close>

definition first_index :: "user_row list \<Rightarrow> jsstring \<Rightarrow> nat" where
  "first_index rows uid = length (takeWhile (\<lambda>r. col_userId r \<noteq> uid) rows)"

text \<open>A six-column row of user U1 in a given state with a given sixth column, and a
  world whose Users sheet holds one row of U1 (state WAITING_NAME, updated at time 5)
  behind a row of U2.\<close>

definition sample_row :: "string \<Rightarrow> jsstring \<Rightarrow> updated_col \<Rightarrow> user_row" where
  "sample_row uid st upd =
     \<lparr>col_userId = ascii uid, col_displayName = None, col_state = st,
      col_data = \<lparr>d_name = None, d_age = None\<rparr>, col_createdAt = 1, col_updatedAt = upd\<rparr>"

definition users_world :: world where
  "users_world =
     idle_world\<lparr>Users := [sample_row ''U2'' INITIAL Unset, sample_row ''U1'' WAITING_NAME (Stamp 5)],
                clock := 9\<rparr>"

text \<open>A parameter value without a dollar sign and without an opening brace.\<close>

definition plain_value :: "jsstring \<Rightarrow> bool" where
  "plain_value v \<longleftrightarrow> 0x24 \<notin> set v \<and> 0x7B \<notin> set v"

definition braces :: "jsstring \<Rightarrow> nat" where
  "braces s = length (filter (\<lambda>c. c = 0x7B) s)"

text \<open>What \<open>User.findByUserId\<close> returns for a user id in a world, and the conversation
  state that \<open>TextHandler\<close> works with: the state of the stored user, or INITIAL for the
  user that is created when none is stored.\<close>

definition current_user :: "jsstring \<Rightarrow> world \<Rightarrow> user option" where
  "current_user uid w = fst (User_findByUserId uid w)"

definition current_state :: "jsstring \<Rightarrow> world \<Rightarrow> jsstring" where
  "current_state uid w = (case current_user uid w of None \<Rightarrow> INITIAL | Some u \<Rightarrow> state u)"

text \<open>The rows of the Users sheet after a six-column row has been saved.\<close>

definition upsert_rows :: "user_row \<Rightarrow> user_row list \<Rightarrow> user_row list" where
  "upsert_rows r rows =
     (if col_userId r \<in> col_userId ` set rows
      then rows[first_index rows (col_userId r) := r]
      else rows @ [r])"

text \<open>The reply token that \<open>TextHandler\<close> passes to \<open>replyText\<close>: \<open>event.replyToken || ''\<close>.\<close>

definition token_of :: "line_event \<Rightarrow> jsstring" where
  "token_of event = (case ev_replyToken event of None \<Rightarrow> [] | Some t \<Rightarrow> t)"

text \<open>The outcome of handling an event: the conversation state of the user afterwards
  and the requests that were handed to the transport; \<open>None\<close> when the handler does not
  return.\<close>

definition outcome :: "line_event \<Rightarrow> jsstring \<Rightarrow> world \<Rightarrow> (jsstring \<times> request list) option" where
  "outcome event uid w =
     (case TextHandler_handle event w of
        None \<Rightarrow> None
      | Some w' \<Rightarrow> Some (current_state uid w', drop (length (requests w)) (requests w')))"

text \<open>The world that the text handler has written when it comes to its reply, or when it
  stops before: at the guard, or in a call of \<open>format\<close> that does not come back.\<close>

definition written :: "line_event \<Rightarrow> world \<Rightarrow> world" where
  "written event w = snd (TextHandler_body event w)"

text \<open>A text message event of a user, with or without a reply token.\<close>

definition text_event :: "jsstring option \<Rightarrow> jsstring option \<Rightarrow> jsstring option \<Rightarrow> line_event" where
  "text_event uid t token =
     \<lparr>ev_type = EvMessage, ev_replyToken = token,
      ev_source = \<lparr>src_type = SrcUser, src_userId = uid\<rparr>, ev_timestamp = 0,
      ev_message = Some \<lparr>msg_id = ascii ''m1'', msg_type = MsgText, msg_text = t\<rparr>,
      ev_postback = None\<rparr>"

text \<open>The opening log line of \<open>TextHandler.handle\<close>.\<close>

definition handling_message :: "line_event \<Rightarrow> jsstring" where
  "handling_message event =
     ascii ''TextHandler handling message: '' @
       (case event_text event of None \<Rightarrow> ascii ''undefined'' | Some t \<Rightarrow> t)"

text \<open>A world whose spreadsheet id was never set: every read and write of the store
  throws.\<close>

definition unset_world :: world where
  "unset_world = idle_world\<lparr>spreadsheetId := None\<rparr>"

text \<open>The world after a \<open>User.save\<close> that succeeds.\<close>

definition after_save :: "user \<Rightarrow> world \<Rightarrow> world" where
  "after_save u w = w\<lparr>Users := upsert_rows (user_to_row u) (Users w)\<rparr>"

text \<open>The user object after \<open>updateData\<close> and after \<open>updateState\<close> at a given time.\<close>

definition with_data :: "user_data \<Rightarrow> nat \<Rightarrow> user \<Rightarrow> user" where
  "with_data newData t u = u\<lparr>data := spread (data u) newData, updatedAt := Some t\<rparr>"

definition with_state :: "jsstring \<Rightarrow> nat \<Rightarrow> user \<Rightarrow> user" where
  "with_state newState t u = u\<lparr>state := newState, updatedAt := Some t\<rparr>"

text \<open>The name and the age that are stored for a user (the empty string and \<open>None\<close>
  when there is none).\<close>

definition stored_name :: "jsstring \<Rightarrow> world \<Rightarrow> jsstring" where
  "stored_name uid w = (case current_user uid w of None \<Rightarrow> [] | Some u \<Rightarrow> name_or_empty u)"

definition stored_age :: "jsstring \<Rightarrow> world \<Rightarrow> int option" where
  "stored_age uid w = (case current_user uid w of None \<Rightarrow> None | Some u \<Rightarrow> d_age (data u))"

text \<open>A decimal digit.\<close>

definition isDecimalDigit :: "code_unit \<Rightarrow> bool" where
  "isDecimalDigit c \<longleftrightarrow> 0x30 \<le> c \<and> c \<le> 0x39"

text \<open>A world in which user U1 has given the name Al and is asked for the age.\<close>

definition age_world :: world where
  "age_world =
     idle_world\<lparr>Users :=
       [\<lparr>col_userId = ascii ''U1'', col_displayName = None, col_state = WAITING_AGE,
         col_data = \<lparr>d_name = Some (ascii ''Al''), d_age = None\<rparr>, col_createdAt = 1,
         col_updatedAt = Stamp 2\<rparr>],
       clock := 3\<rparr>"

section \<open>Frame lemmas\<close>

lemma requests_console_write [simp]: "requests (console_write m t w) = requests w"
  by (simp add: console_write_def)

lemma requests_saveLog [simp]: "requests (saveLog l m w) = requests w"
  by (simp add: saveLog_def split: sum.split)

lemma requests_saveToSheet [simp]: "requests (saveToSheet l m w) = requests w"
  by (simp add: saveToSheet_def)

lemma requests_Logger_log [simp]: "requests (Logger_log m w) = requests w"
  by (simp add: Logger_log_def)

lemma requests_Logger_error [simp]: "requests (Logger_error m w) = requests w"
  by (simp add: Logger_error_def)

lemma requests_Utilities_sleep [simp]: "requests (Utilities_sleep ms w) = requests w"
  by (simp add: Utilities_sleep_def)

lemma post_returns: "\<exists>r. fst (post url pl w) = Inr r"
  by (simp add: post_def UrlFetchApp_fetch_def Let_def split: fetch_result.split)

lemma post_requests:
  "requests (snd (post url pl w)) = requests w @ [\<lparr>req_url = url, req_payload = pl\<rparr>]"
  by (simp add: post_def UrlFetchApp_fetch_def Let_def split: fetch_result.split)

section \<open>Handler selection\<close>

text \<open>
  C7.  For every inbound event the factory selects one handler, by first match: the
  TextHandler exactly for an event of kind message whose message is of kind text, the
  ImageHandler exactly for an event of kind message whose message is of kind image, the
  PostbackHandler exactly for an event of kind postback, and the DefaultHandler exactly
  for all other events (another event kind, a message of another kind, or a message
  event without a message).
\<close>

theorem createHandler_first_match:
  "(createHandler e = TextHandler \<longleftrightarrow>
      ev_type e = EvMessage \<and> map_option msg_type (ev_message e) = Some MsgText) \<and>
   (createHandler e = ImageHandler \<longleftrightarrow>
      ev_type e = EvMessage \<and> map_option msg_type (ev_message e) = Some MsgImage) \<and>
   (createHandler e = PostbackHandler \<longleftrightarrow> ev_type e = EvPostback) \<and>
   (createHandler e = DefaultHandler \<longleftrightarrow>
      ev_type e \<noteq> EvPostback \<and>
      (ev_type e \<noteq> EvMessage \<or>
       (map_option msg_type (ev_message e) \<noteq> Some MsgText \<and>
        map_option msg_type (ev_message e) \<noteq> Some MsgImage)))"
proof (cases "ev_message e")
  case None
  then show ?thesis by (simp add: createHandler_def)
next
  case (Some m)
  then show ?thesis by (cases "msg_type m") (simp_all add: createHandler_def)
qed

theorem createHandler_first_match_witness:
  "createHandler
     \<lparr>ev_type = EvMessage, ev_replyToken = None,
      ev_source = \<lparr>src_type = SrcUser, src_userId = None\<rparr>, ev_timestamp = 0,
      ev_message = Some \<lparr>msg_id = [], msg_type = MsgSticker, msg_text = None\<rparr>,
      ev_postback = None\<rparr> = DefaultHandler"
  using createHandler_first_match
    [of "\<lparr>ev_type = EvMessage, ev_replyToken = None,
          ev_source = \<lparr>src_type = SrcUser, src_userId = None\<rparr>, ev_timestamp = 0,
          ev_message = Some \<lparr>msg_id = [], msg_type = MsgSticker, msg_text = None\<rparr>,
          ev_postback = None\<rparr>"]
  by simp

section \<open>Chunked sending\<close>

lemma sendLongMessage_while_sends:
  "fst (sendLongMessage_while uid r c w) = Inr (c + length (slices MAX_MESSAGE_LENGTH r)) \<and>
   requests (snd (sendLongMessage_while uid r c w)) =
     requests w @ map (\<lambda>part. push_request uid (ANALYSIS_CONTINUED @ part))
                      (slices MAX_MESSAGE_LENGTH r)"
proof (induction uid r c w rule: sendLongMessage_while.induct)
  case (1 uid r c w)
  show ?case
  proof (cases "r = []")
    case True
    then show ?thesis
      by (simp add: sendLongMessage_while.simps slices.simps)
  next
    case False
    define part where "part = (if length r > MAX_MESSAGE_LENGTH then substring_to r MAX_MESSAGE_LENGTH else r)"
    define w1 where "w1 = Utilities_sleep 500 w"
    have part_take: "part = take MAX_MESSAGE_LENGTH r"
      by (simp add: part_def substring_to_def)
    have rest: "substring_from r (length part) = drop MAX_MESSAGE_LENGTH r"
      by (simp add: part_take substring_from_def min_def)
    obtain resp where resp: "fst (pushText uid (ANALYSIS_CONTINUED @ part) w1) = Inr resp"
      unfolding pushText_def using post_returns by blast
    define w2 where "w2 = snd (pushText uid (ANALYSIS_CONTINUED @ part) w1)"
    have pt: "pushText uid (ANALYSIS_CONTINUED @ part) w1 = (Inr resp, w2)"
      using resp by (simp add: w2_def prod_eq_iff)
    have req2: "requests w2 = requests w @ [push_request uid (ANALYSIS_CONTINUED @ part)]"
      by (simp add: w2_def pushText_def post_requests push_request_def w1_def)
    have step: "sendLongMessage_while uid r c w =
                sendLongMessage_while uid (drop MAX_MESSAGE_LENGTH r) (c + 1) w2"
      using False pt rest
      by (subst sendLongMessage_while.simps) (simp add: Let_def part_def [symmetric] w1_def [symmetric])
    have ch: "slices MAX_MESSAGE_LENGTH r = part # slices MAX_MESSAGE_LENGTH (drop MAX_MESSAGE_LENGTH r)"
      using False by (subst slices.simps) (simp add: part_take MAX_MESSAGE_LENGTH_def)
    have IH: "fst (sendLongMessage_while uid (drop MAX_MESSAGE_LENGTH r) (c + 1) w2) =
                Inr (c + 1 + length (slices MAX_MESSAGE_LENGTH (drop MAX_MESSAGE_LENGTH r))) \<and>
              requests (snd (sendLongMessage_while uid (drop MAX_MESSAGE_LENGTH r) (c + 1) w2)) =
                requests w2 @ map (\<lambda>part. push_request uid (ANALYSIS_CONTINUED @ part))
                      (slices MAX_MESSAGE_LENGTH (drop MAX_MESSAGE_LENGTH r))"
      using "1.IH" [of w1 part "Inr resp" w2 resp] False rest pt w1_def part_def
      by simp
    show ?thesis
      using IH by (simp add: step ch req2)
  qed
qed


lemma concat_slices: "0 < n \<Longrightarrow> concat (slices n xs) = xs"
proof (induction n xs rule: slices.induct)
  case (1 n xs)
  then show ?case by (subst slices.simps) simp
qed

lemma list_all_slices: "list_all (\<lambda>part. 0 < length part \<and> length part \<le> n) (slices n xs)"
proof (induction n xs rule: slices.induct)
  case (1 n xs)
  then show ?case by (subst slices.simps) simp
qed

lemma slices_Nil: "slices n [] = []"
  by (subst slices.simps) simp

lemma slices_two:
  assumes "n < length xs" "length xs \<le> 2 * n"
  shows "slices n xs = [take n xs, drop n xs]"
proof -
  have "slices n (drop n xs) = [drop n xs]"
    using assms by (subst slices.simps) (simp add: slices_Nil)
  then show ?thesis
    using assms by (subst slices.simps) auto
qed

lemma replyText_requests:
  "requests (snd (replyText token text w)) = requests w @ [reply_request token text]"
  by (simp add: replyText_def post_requests reply_request_def)

lemma sendLongMessage_requests:
  "requests (snd (sendLongMessage uid token text w)) =
     requests w @ reply_request token (take MAX_MESSAGE_LENGTH text) #
       map (\<lambda>part. push_request uid (ANALYSIS_CONTINUED @ part))
         (slices MAX_MESSAGE_LENGTH (drop MAX_MESSAGE_LENGTH text))"
proof -
  obtain r where r: "fst (replyText token (take MAX_MESSAGE_LENGTH text) w) = Inr r"
    unfolding replyText_def using post_returns by blast
  define w1 where "w1 = snd (replyText token (take MAX_MESSAGE_LENGTH text) w)"
  have rt: "replyText token (take MAX_MESSAGE_LENGTH text) w = (Inr r, w1)"
    using r by (simp add: w1_def prod_eq_iff)
  have req1: "requests w1 = requests w @ [reply_request token (take MAX_MESSAGE_LENGTH text)]"
    by (simp add: w1_def replyText_requests)
  show ?thesis
  proof (cases "length text \<le> MAX_MESSAGE_LENGTH")
    case True
    then show ?thesis
      using rt req1 by (simp add: sendLongMessage_def sendLongMessage_try_def slices_Nil)
  next
    case False
    define rest where "rest = drop MAX_MESSAGE_LENGTH text"
    obtain w2 where w2:
      "sendLongMessage_while uid rest 1 w1 =
         (Inr (1 + length (slices MAX_MESSAGE_LENGTH rest)), w2)"
      "requests w2 = requests w1 @ map (\<lambda>part. push_request uid (ANALYSIS_CONTINUED @ part))
                      (slices MAX_MESSAGE_LENGTH rest)"
      using sendLongMessage_while_sends [of uid rest 1 w1]
      by (cases "sendLongMessage_while uid rest 1 w1") auto
    show ?thesis
      using False rt req1 w2
      by (simp add: sendLongMessage_def sendLongMessage_try_def substring_to_def
          substring_from_def rest_def [symmetric])
  qed
qed

text \<open>
  C3.  \<open>sendLongMessage\<close> hands to the transport one reply with the first 4000 units of
  the text and then, for each slice of up to 4000 units of the remainder, one push of the
  continuation marker followed by the slice.  The slices are non-empty and at most 4000
  units long, and the reply text followed by the push texts without their markers is
  the original text.  A text of at most 4000 units gives exactly one reply with the
  whole text and no push; a text of 9000 units gives exactly three sends, a reply of
  4000 units and pushes of 4000 and 1000 units behind the marker.
\<close>

theorem sendLongMessage_chunking:
  "requests (snd (sendLongMessage uid token text w)) =
     requests w @ reply_request token (take 4000 text) #
       map (\<lambda>part. push_request uid (ANALYSIS_CONTINUED @ part)) (slices 4000 (drop 4000 text)) \<and>
   list_all (\<lambda>part. 0 < length part \<and> length part \<le> 4000) (slices 4000 (drop 4000 text)) \<and>
   concat (request_text (reply_request token (take 4000 text)) #
           map (\<lambda>req. strip_marker (request_text req))
             (map (\<lambda>part. push_request uid (ANALYSIS_CONTINUED @ part))
                (slices 4000 (drop 4000 text)))) = text \<and>
   (length text \<le> 4000 \<longrightarrow>
      requests (snd (sendLongMessage uid token text w)) =
        requests w @ [reply_request token text]) \<and>
   (length text = 9000 \<longrightarrow>
      requests (snd (sendLongMessage uid token text w)) =
        requests w @
          [reply_request token (take 4000 text),
           push_request uid (ANALYSIS_CONTINUED @ take 4000 (drop 4000 text)),
           push_request uid (ANALYSIS_CONTINUED @ drop 8000 text)] \<and>
      length (take 4000 text) = 4000 \<and> length (take 4000 (drop 4000 text)) = 4000 \<and>
      length (drop 8000 text) = 1000)"
proof -
  have sent: "requests (snd (sendLongMessage uid token text w)) =
     requests w @ reply_request token (take 4000 text) #
       map (\<lambda>part. push_request uid (ANALYSIS_CONTINUED @ part)) (slices 4000 (drop 4000 text))"
    using sendLongMessage_requests [of uid token "text" w] by (simp add: MAX_MESSAGE_LENGTH_def)
  have strip: "map (\<lambda>req. strip_marker (request_text req))
             (map (\<lambda>part. push_request uid (ANALYSIS_CONTINUED @ part)) cs) = cs" for cs
    by (induction cs) (simp_all add: strip_marker_def request_text_def push_request_def)
  have whole: "concat (request_text (reply_request token (take 4000 text)) #
           map (\<lambda>req. strip_marker (request_text req))
             (map (\<lambda>part. push_request uid (ANALYSIS_CONTINUED @ part))
                (slices 4000 (drop 4000 text)))) = text"
    unfolding strip by (simp add: concat_slices request_text_def reply_request_def)
  have short: "length text \<le> 4000 \<Longrightarrow> slices 4000 (drop 4000 text) = []"
    by (simp add: slices_Nil)
  have long: "length text = 9000 \<Longrightarrow>
      slices 4000 (drop 4000 text) = [take 4000 (drop 4000 text), drop 8000 text]"
    using slices_two [of 4000 "drop 4000 text"] by simp
  show ?thesis
    using sent whole short long list_all_slices [of 4000 "drop 4000 text"] by simp
qed

theorem sendLongMessage_chunking_witness:
  "length (ascii ''hello'') \<le> 4000 \<and>
   requests (snd (sendLongMessage (ascii ''U1'') (ascii ''T1'') (ascii ''hello'') idle_world)) =
     [reply_request (ascii ''T1'') (ascii ''hello'')] \<and>
   length (replicate 9000 (0x61 :: code_unit)) = 9000 \<and>
   requests (snd (sendLongMessage (ascii ''U1'') (ascii ''T1'') (replicate 9000 0x61) idle_world)) =
     [reply_request (ascii ''T1'') (replicate 4000 0x61),
      push_request (ascii ''U1'') (ANALYSIS_CONTINUED @ replicate 4000 0x61),
      push_request (ascii ''U1'') (ANALYSIS_CONTINUED @ replicate 1000 0x61)]"
  using sendLongMessage_chunking [of "ascii ''U1''" "ascii ''T1''" "ascii ''hello''" idle_world,
      THEN conjunct2, THEN conjunct2, THEN conjunct2, THEN conjunct1]
    sendLongMessage_chunking [of "ascii ''U1''" "ascii ''T1''" "replicate 9000 0x61" idle_world,
      THEN conjunct2, THEN conjunct2, THEN conjunct2, THEN conjunct2]
  by (simp add: idle_world_def ascii_def)


section \<open>Transport errors during chunked sending\<close>

lemma sendLongMessage_true: "fst (sendLongMessage uid token txt w) = True"
proof -
  obtain r where r: "fst (replyText token txt w) = Inr r"
    unfolding replyText_def using post_returns by blast
  obtain r' where r': "fst (replyText token (take MAX_MESSAGE_LENGTH txt) w) = Inr r'"
    unfolding replyText_def using post_returns by blast
  show ?thesis
    using r r' sendLongMessage_while_sends
      [of uid "drop MAX_MESSAGE_LENGTH txt" 1
        "snd (replyText token (take MAX_MESSAGE_LENGTH txt) w)"]
    by (auto simp: sendLongMessage_def sendLongMessage_try_def substring_to_def
        substring_from_def split: prod.splits sum.splits)
qed

text \<open>
  C6.  \<open>sendLongMessage\<close> returns a boolean.  With the platform out of reach, so that the
  fetch of the reply and of every push throws, a text of 9000 units is still sent in
  three requests and the result is \<open>true\<close>: \<open>post\<close> catches the error of the fetch, logs
  it and returns a result object, and \<open>sendLongMessage\<close> does not look at that object.
  The same holds for a short text: the only request fails, the error is written to the
  console by \<open>post\<close>, and the result is \<open>true\<close>.
\<close>

theorem sendLongMessage_transport_error_not_aborting:
  "map (fetch_results offline_world) [0, 1, 2] =
     [Throws (ascii ''timeout''), Throws (ascii ''timeout''), Throws (ascii ''timeout'')] \<and>
   fst (sendLongMessage (ascii ''U1'') (ascii ''T1'') (replicate 9000 0x61) offline_world) = True \<and>
   requests (snd (sendLongMessage (ascii ''U1'') (ascii ''T1'') (replicate 9000 0x61)
                    offline_world)) =
     [reply_request (ascii ''T1'') (replicate 4000 0x61),
      push_request (ascii ''U1'') (ANALYSIS_CONTINUED @ replicate 4000 0x61),
      push_request (ascii ''U1'') (ANALYSIS_CONTINUED @ replicate 1000 0x61)] \<and>
   fst (sendLongMessage (ascii ''U1'') (ascii ''T1'') (ascii ''hello'') offline_world) = True \<and>
   console (snd (sendLongMessage (ascii ''U1'') (ascii ''T1'') (ascii ''hello'') offline_world)) =
     [(ConsoleError, ascii ''[ERROR] Error in post: timeout'')]"
proof -
  have ch: "slices 4000 (replicate 5000 (0x61 :: code_unit)) =
              [replicate 4000 0x61, replicate 1000 0x61]"
    using slices_two [of 4000 "replicate 5000 (0x61 :: code_unit)"] by simp
  have reqs: "requests (snd (sendLongMessage (ascii ''U1'') (ascii ''T1'') (replicate 9000 0x61)
                    offline_world)) =
     [reply_request (ascii ''T1'') (replicate 4000 0x61),
      push_request (ascii ''U1'') (ANALYSIS_CONTINUED @ replicate 4000 0x61),
      push_request (ascii ''U1'') (ANALYSIS_CONTINUED @ replicate 1000 0x61)]"
    by (simp add: sendLongMessage_requests MAX_MESSAGE_LENGTH_def ch offline_world_def
        idle_world_def)
  have cons: "console (snd (sendLongMessage (ascii ''U1'') (ascii ''T1'') (ascii ''hello'')
                 offline_world)) = [(ConsoleError, ascii ''[ERROR] Error in post: timeout'')]"
    by (simp add: sendLongMessage_def sendLongMessage_try_def replyText_def post_def
        UrlFetchApp_fetch_def offline_world_def idle_world_def MAX_MESSAGE_LENGTH_def ascii_def
        Logger_error_def saveToSheet_def saveLog_def console_write_def getSpreadsheet_def)
  show ?thesis
    using reqs cons by (simp add: sendLongMessage_true offline_world_def)
qed

section \<open>Message history\<close>

lemma sorted_wrt_newest_first:
  "sorted_wrt (\<lambda>a b. mcol_timestamp b \<le> mcol_timestamp a) (sort_newest_first ms)"
proof -
  have "sorted (map (\<lambda>r. - int (mcol_timestamp r)) (sort_newest_first ms))"
    by (simp add: sort_newest_first_def)
  then show ?thesis
    by (simp add: sorted_map sorted_wrt_iff_nth_less)
qed

lemma sort_newest_first_three:
  assumes perm: "mset ms = {#m1, m2, m3#}"
    and lt: "mcol_timestamp m1 < mcol_timestamp m2" "mcol_timestamp m2 < mcol_timestamp m3"
  shows "sort_newest_first ms = [m3, m2, m1]"
  unfolding sort_newest_first_def
proof (rule properties_for_sort_key)
  show "mset [m3, m2, m1] = mset ms"
    using perm by (simp add: add_mset_commute)
  show "sorted (map (\<lambda>r. - int (mcol_timestamp r)) [m3, m2, m1])"
    using lt by simp
  fix k assume "k \<in> set [m3, m2, m1]"
  have "mset (filter (\<lambda>x. - int (mcol_timestamp k) = - int (mcol_timestamp x)) ms) =
        mset (filter (\<lambda>x. - int (mcol_timestamp k) = - int (mcol_timestamp x)) [m3, m2, m1])"
    using perm by (simp add: add_mset_commute)
  moreover have "\<exists>y. filter (\<lambda>x. - int (mcol_timestamp k) = - int (mcol_timestamp x)) [m3, m2, m1] = [y]"
    using \<open>k \<in> set [m3, m2, m1]\<close> lt by auto
  ultimately show "filter (\<lambda>x. - int (mcol_timestamp k) = - int (mcol_timestamp x)) [m3, m2, m1] =
        filter (\<lambda>x. - int (mcol_timestamp k) = - int (mcol_timestamp x)) ms"
    by (metis mset_single_iff mset.simps)
qed

text \<open>
  C8.  With the store in reach, \<open>getMessagesByUserId\<close> returns the rows of the Messages
  sheet whose user id is the given one, sorted by timestamp with the most recent
  first, cut to the first \<open>limit\<close> rows for a limit \<open>n \<ge> 0\<close>; the limit defaults to 10;
  the sheet is left as it is.  When the rows of the user are three messages with
  timestamps t1 < t2 < t3, in any order in the sheet, the call with limit 2 returns the
  messages at t3 and t2, in this order.
\<close>

theorem getMessagesByUserId_newest_first:
  assumes "getSpreadsheet w = Inr ()"
  shows
    "(0 \<le> n \<longrightarrow>
        getMessagesByUserId uid (Some n) w =
          (Inr (take (nat n) (sort_newest_first (messages_of uid w))), w)) \<and>
     getMessagesByUserId uid None w = getMessagesByUserId uid (Some 10) w \<and>
     mset (sort_newest_first (messages_of uid w)) =
       filter_mset (\<lambda>row. mcol_userId row = uid) (mset (Messages w)) \<and>
     sorted_wrt (\<lambda>a b. mcol_timestamp b \<le> mcol_timestamp a)
       (sort_newest_first (messages_of uid w)) \<and>
     (mset (messages_of uid w) = {#m1, m2, m3#} \<and>
      mcol_timestamp m1 < mcol_timestamp m2 \<and> mcol_timestamp m2 < mcol_timestamp m3 \<longrightarrow>
        getMessagesByUserId uid (Some 2) w = (Inr [m3, m2], w))"
proof -
  have call: "getMessagesByUserId uid limit w =
      (Inr (slice0 (sort_newest_first (messages_of uid w))
              (case limit of None \<Rightarrow> 10 | Some k \<Rightarrow> k)), w)" for limit
    using assms by (simp add: getMessagesByUserId_def messages_of_def)
  have three: "sort_newest_first (messages_of uid w) = [m3, m2, m1]"
    if "mset (messages_of uid w) = {#m1, m2, m3#}"
      "mcol_timestamp m1 < mcol_timestamp m2" "mcol_timestamp m2 < mcol_timestamp m3"
    using that by (rule sort_newest_first_three)
  have c1: "0 \<le> n \<longrightarrow>
        getMessagesByUserId uid (Some n) w =
          (Inr (take (nat n) (sort_newest_first (messages_of uid w))), w)"
    by (simp add: call slice0_def)
  have c2: "getMessagesByUserId uid None w = getMessagesByUserId uid (Some 10) w"
    by (simp add: call)
  have c3: "mset (sort_newest_first (messages_of uid w)) =
       filter_mset (\<lambda>row. mcol_userId row = uid) (mset (Messages w))"
    by (simp add: sort_newest_first_def messages_of_def)
  have c5: "mset (messages_of uid w) = {#m1, m2, m3#} \<and>
      mcol_timestamp m1 < mcol_timestamp m2 \<and> mcol_timestamp m2 < mcol_timestamp m3 \<longrightarrow>
        getMessagesByUserId uid (Some 2) w = (Inr [m3, m2], w)"
    using three by (simp add: call slice0_def)
  show ?thesis
    using c1 c2 c3 c5 sorted_wrt_newest_first by blast
qed

theorem getMessagesByUserId_newest_first_witness:
  "getSpreadsheet history_world = Inr () \<and>
   mset (messages_of (ascii ''U1'') history_world) =
     {#text_row ''U1'' ''a'' 10, text_row ''U1'' ''b'' 20, text_row ''U1'' ''c'' 30#} \<and>
   getMessagesByUserId (ascii ''U1'') (Some 2) history_world =
     (Inr [text_row ''U1'' ''c'' 30, text_row ''U1'' ''b'' 20], history_world)"
proof -
  have ok: "getSpreadsheet history_world = Inr ()"
    by (simp add: getSpreadsheet_def history_world_def idle_world_def ascii_def)
  have ms: "mset (messages_of (ascii ''U1'') history_world) =
     {#text_row ''U1'' ''a'' 10, text_row ''U1'' ''b'' 20, text_row ''U1'' ''c'' 30#}"
    by (simp add: messages_of_def history_world_def text_row_def ascii_def)
  have ts: "mcol_timestamp (text_row ''U1'' ''a'' 10) < mcol_timestamp (text_row ''U1'' ''b'' 20)"
    "mcol_timestamp (text_row ''U1'' ''b'' 20) < mcol_timestamp (text_row ''U1'' ''c'' 30)"
    by (simp_all add: text_row_def)
  show ?thesis
    using ok ms ts getMessagesByUserId_newest_first [OF ok, of 2 "ascii ''U1''"
        "text_row ''U1'' ''a'' 10" "text_row ''U1'' ''b'' 20" "text_row ''U1'' ''c'' 30"]
    by blast
qed


section \<open>Saving and finding a user row\<close>

lemma findUserRow_for_eq:
  "findUserRow_for i rows uid =
     (if uid \<in> col_userId ` set rows then i + 1 + first_index rows uid else 0)"
  by (induction rows arbitrary: i) (auto simp: first_index_def)

lemma findUserRow_eq:
  "findUserRow rows uid = (if uid \<in> col_userId ` set rows then first_index rows uid + 2 else 0)"
  by (simp add: findUserRow_def findUserRow_for_eq)

lemma first_index_less:
  "uid \<in> col_userId ` set rows \<Longrightarrow> first_index rows uid < length rows"
  unfolding first_index_def
  by (induction rows) auto

lemma first_index_nth:
  "uid \<in> col_userId ` set rows \<Longrightarrow> col_userId (rows ! first_index rows uid) = uid"
  using nth_length_takeWhile [of "\<lambda>r. col_userId r \<noteq> uid" rows] first_index_less [of uid rows]
  by (simp add: first_index_def)

lemma first_index_update:
  "uid \<in> col_userId ` set rows \<Longrightarrow> col_userId r = uid \<Longrightarrow>
     first_index (rows[first_index rows uid := r]) uid = first_index rows uid"
  unfolding first_index_def
  by (induction rows) auto

lemma first_index_append:
  "uid \<notin> col_userId ` set rows \<Longrightarrow> col_userId r = uid \<Longrightarrow>
     first_index (rows @ [r]) uid = length rows"
  unfolding first_index_def
  by (induction rows) auto


lemma getSpreadsheet_frame [simp]:
  "getSpreadsheet (w\<lparr>Users := us\<rparr>) = getSpreadsheet w"
  "getSpreadsheet (w\<lparr>Messages := ms\<rparr>) = getSpreadsheet w"
  "getSpreadsheet (w\<lparr>Logs := ls\<rparr>) = getSpreadsheet w"
  "getSpreadsheet (w\<lparr>console := c\<rparr>) = getSpreadsheet w"
  "getSpreadsheet (w\<lparr>requests := rs\<rparr>) = getSpreadsheet w"
  "getSpreadsheet (w\<lparr>clock := t\<rparr>) = getSpreadsheet w"
  by (simp_all add: getSpreadsheet_def)

lemma push_Date_userId [simp]: "col_userId (push_Date u t) = col_userId u"
  by (simp add: push_Date_def)

lemma push_Date_not_Missing [simp]: "col_updatedAt (push_Date u t) \<noteq> Missing"
  by (simp add: push_Date_def)

lemma saveUserData_ok:
  assumes "getSpreadsheet w = Inr ()"
  shows "saveUserData u w =
     (Inr (),
      w\<lparr>Users :=
           (if col_userId u \<in> col_userId ` set (Users w)
            then (Users w)[first_index (Users w) (col_userId u) := push_Date u (clock w)]
            else Users w @ [push_Date u (clock w)])\<rparr>)"
  using assms
  by (simp add: saveUserData_def findUserRow_eq setValues_def row_length_def push_Date_def Let_def)

lemma getUserDataByUserId_after_save:
  assumes "getSpreadsheet w = Inr ()"
  shows "fst (getUserDataByUserId (col_userId u) (snd (saveUserData u w))) =
           Inr (Some (push_Date u (clock w)))"
proof -
  let ?u' = "push_Date u (clock w)"
  let ?rows' = "if col_userId u \<in> col_userId ` set (Users w)
            then (Users w)[first_index (Users w) (col_userId u) := ?u']
            else Users w @ [?u']"
  have w': "snd (saveUserData u w) = w\<lparr>Users := ?rows'\<rparr>"
    using saveUserData_ok [OF assms, of u] by simp
  have ok': "getSpreadsheet (w\<lparr>Users := ?rows'\<rparr>) = Inr ()"
    using assms by simp
  have mem: "col_userId u \<in> col_userId ` set ?rows'"
  proof (cases "col_userId u \<in> col_userId ` set (Users w)")
    case True
    then have "first_index (Users w) (col_userId u) < length (Users w)"
      by (rule first_index_less)
    then have "?u' \<in> set ((Users w)[first_index (Users w) (col_userId u) := ?u'])"
      by (simp add: set_update_memI)
    then have "col_userId ?u' \<in> col_userId ` set ((Users w)[first_index (Users w) (col_userId u) := ?u'])"
      by (rule imageI)
    then show ?thesis using True by simp
  next
    case False
    then show ?thesis by simp
  qed
  have idx: "?rows' ! first_index ?rows' (col_userId u) = ?u'"
  proof (cases "col_userId u \<in> col_userId ` set (Users w)")
    case True
    then show ?thesis
      using first_index_update [of "col_userId u" "Users w" ?u'] first_index_less [OF True]
      by simp
  next
    case False
    then show ?thesis
      using first_index_append [of "col_userId u" "Users w" ?u'] by simp
  qed
  show ?thesis
    unfolding w' using ok' mem idx
    by (simp add: getUserDataByUserId_def findUserRow_eq getValues_def Let_def)
qed


text \<open>
  An overwrite that does not set the updated-timestamp: the Users sheet holds a row of
  U1 in sheet row 3, and a six-column row of U1 whose sixth column is \<open>null\<close> (the row
  that \<open>User.save\<close> builds for a \<open>new User\<close>) is saved.  The matched row is overwritten
  with the row as given, and reading it back gives an unset updated-timestamp.
\<close>

theorem saveUserData_overwrite_with_unset_timestamp:
  "findUserRow (Users users_world) (col_userId (sample_row ''U1'' INITIAL Unset)) = 3 \<and>
   row_length (sample_row ''U1'' INITIAL Unset) = 6 \<and>
   Users (snd (saveUserData (sample_row ''U1'' INITIAL Unset) users_world)) =
     [sample_row ''U2'' INITIAL Unset, sample_row ''U1'' INITIAL Unset] \<and>
   fst (getUserDataByUserId (ascii ''U1'')
          (snd (saveUserData (sample_row ''U1'' INITIAL Unset) users_world))) =
     Inr (Some (sample_row ''U1'' INITIAL Unset)) \<and>
   col_updatedAt (sample_row ''U1'' INITIAL Unset) = Unset"
  by (simp add: saveUserData_def getUserDataByUserId_def getSpreadsheet_def findUserRow_def
      setValues_def getValues_def row_length_def users_world_def idle_world_def sample_row_def
      ascii_def)

text \<open>
  C2.  With the store in reach, \<open>saveUserData(u)\<close> appends a row when no row of
  the sheet has the user id of \<open>u\<close>, and otherwise overwrites the first row with that user
  id in place and leaves every other row as it is; \<open>getUserDataByUserId\<close> of that user
  id then returns the row that was written.  The row written is \<open>u\<close> itself when \<open>u\<close>
  has six columns, with its updated-timestamp as given (set or unset); when \<open>u\<close> has
  only five columns, the current time is added as updated-timestamp, on an insert and on
  an overwrite alike.
\<close>

theorem saveUserData_then_getUserDataByUserId:
  assumes "getSpreadsheet w = Inr ()"
  shows
    "saveUserData u w =
       (Inr (),
        w\<lparr>Users :=
             (if col_userId u \<in> col_userId ` set (Users w)
              then (Users w)[first_index (Users w) (col_userId u) := push_Date u (clock w)]
              else Users w @ [push_Date u (clock w)])\<rparr>) \<and>
     fst (getUserDataByUserId (col_userId u) (snd (saveUserData u w))) =
       Inr (Some (push_Date u (clock w))) \<and>
     (row_length u = 6 \<longrightarrow> push_Date u (clock w) = u) \<and>
     (row_length u \<le> 5 \<longrightarrow> push_Date u (clock w) = u\<lparr>col_updatedAt := Stamp (clock w)\<rparr>)"
proof -
  have a: "row_length u = 6 \<longrightarrow> push_Date u (clock w) = u"
    by (simp add: row_length_def push_Date_def)
  have b: "row_length u \<le> 5 \<longrightarrow> push_Date u (clock w) = u\<lparr>col_updatedAt := Stamp (clock w)\<rparr>"
    by (simp add: row_length_def push_Date_def)
  show ?thesis
    using saveUserData_ok [OF assms, of u] getUserDataByUserId_after_save [OF assms, of u] a b
    by blast
qed

theorem saveUserData_then_getUserDataByUserId_witness:
  "getSpreadsheet users_world = Inr () \<and>
   row_length (sample_row ''U3'' REGISTERED Missing) \<le> 5 \<and>
   Users (snd (saveUserData (sample_row ''U3'' REGISTERED Missing) users_world)) =
     Users users_world @ [sample_row ''U3'' REGISTERED (Stamp 9)] \<and>
   fst (getUserDataByUserId (ascii ''U3'')
          (snd (saveUserData (sample_row ''U3'' REGISTERED Missing) users_world))) =
     Inr (Some (sample_row ''U3'' REGISTERED (Stamp 9)))"
proof -
  have ok: "getSpreadsheet users_world = Inr ()"
    by (simp add: getSpreadsheet_def users_world_def idle_world_def ascii_def)
  have len: "row_length (sample_row ''U3'' REGISTERED Missing) \<le> 5"
    by (simp add: row_length_def sample_row_def)
  have absent: "col_userId (sample_row ''U3'' REGISTERED Missing) \<notin>
                  col_userId ` set (Users users_world)"
    by (simp add: users_world_def idle_world_def sample_row_def ascii_def)
  have stamped: "(sample_row ''U3'' REGISTERED Missing)\<lparr>col_updatedAt := Stamp (clock users_world)\<rparr> =
                 sample_row ''U3'' REGISTERED (Stamp 9)"
    by (simp add: users_world_def sample_row_def)
  have uid: "col_userId (sample_row ''U3'' REGISTERED Missing) = ascii ''U3''"
    by (simp add: sample_row_def)
  note t = saveUserData_then_getUserDataByUserId [OF ok, of "sample_row ''U3'' REGISTERED Missing"]
  have p: "push_Date (sample_row ''U3'' REGISTERED Missing) (clock users_world) =
           sample_row ''U3'' REGISTERED (Stamp 9)"
    using t [THEN conjunct2, THEN conjunct2, THEN conjunct2] len stamped by simp
  have s: "Users (snd (saveUserData (sample_row ''U3'' REGISTERED Missing) users_world)) =
     Users users_world @ [sample_row ''U3'' REGISTERED (Stamp 9)]"
    using t [THEN conjunct1] absent p by simp
  have g: "fst (getUserDataByUserId (ascii ''U3'')
          (snd (saveUserData (sample_row ''U3'' REGISTERED Missing) users_world))) =
     Inr (Some (sample_row ''U3'' REGISTERED (Stamp 9)))"
    using t [THEN conjunct2, THEN conjunct1] uid p by simp
  show ?thesis
    using ok len s g by blast
qed


section \<open>Placeholder substitution\<close>

lemma getSubstitution_plain:
  "0x24 \<notin> set v \<Longrightarrow> getSubstitution m s pos v = v"
  by (induction m s pos v rule: getSubstitution.induct) auto

lemma indexOf_Some:
  "indexOf s p = Some i \<Longrightarrow> s = take i s @ p @ drop (i + length p) s"
proof (induction s arbitrary: i)
  case Nil
  then show ?case by (simp split: if_splits)
next
  case (Cons c s)
  show ?case
  proof (cases "prefix p (c # s)")
    case True
    then obtain zs where "c # s = p @ zs" by (auto simp: prefix_def)
    moreover have "i = 0" using Cons.prems True by simp
    ultimately show ?thesis by simp
  next
    case False
    then obtain j where j: "indexOf s p = Some j" "i = Suc j"
      using Cons.prems by auto
    show ?thesis
      using Cons.IH [OF j(1)] j(2) by simp
  qed
qed

lemma replace_plain:
  "0x24 \<notin> set v \<Longrightarrow> indexOf s p = Some i \<Longrightarrow>
     replace s p v = take i s @ v @ drop (i + length p) s"
  by (simp add: replace_def getSubstitution_plain)

lemma braces_append [simp]: "braces (xs @ ys) = braces xs + braces ys"
  by (simp add: braces_def)

lemma braces_replace:
  assumes "plain_value v" "includesStr s (placeholder k)"
  shows "braces (replace s (placeholder k) v) < braces s"
proof -
  obtain i where i: "indexOf s (placeholder k) = Some i"
    using assms(2) by (auto simp: includesStr_def)
  let ?p = "placeholder k"
  have s: "s = take i s @ ?p @ drop (i + length ?p) s"
    using indexOf_Some [OF i] .
  have r: "replace s ?p v = take i s @ v @ drop (i + length ?p) s"
    using assms(1) i by (simp add: replace_plain plain_value_def)
  have v0: "braces v = 0"
    using assms(1) by (auto simp: plain_value_def braces_def filter_empty_conv)
  have p1: "0 < braces ?p"
    by (simp add: placeholder_def braces_def)
  have "braces s = braces (take i s) + braces ?p + braces (drop (i + length ?p) s)"
    by (subst s) simp
  then show ?thesis
    using v0 p1 by (simp add: r)
qed

lemma format_while_plain:
  assumes "plain_value v"
  shows "\<exists>r. format_while (placeholder k) v s = Some r \<and> \<not> includesStr r (placeholder k)"
proof (induction "braces s" arbitrary: s rule: less_induct)
  case less
  show ?case
  proof (cases "includesStr s (placeholder k)")
    case True
    have "braces (replace s (placeholder k) v) < braces s"
      using assms True by (rule braces_replace)
    from less [OF this] show ?thesis
      using True by (subst format_while.simps) simp
  next
    case False
    then show ?thesis by (subst format_while.simps) simp
  qed
qed

lemma format_while_absent:
  "\<not> includesStr s ph \<Longrightarrow> format_while ph v s = Some s"
  by (subst format_while.simps) simp

lemma format_forEach_plain:
  "list_all (\<lambda>(k, v). plain_value v) params \<Longrightarrow> \<exists>r. format_forEach params s = Some r"
proof (induction params arbitrary: s)
  case Nil
  then show ?case by simp
next
  case (Cons kv params)
  obtain k v where kv: "kv = (k, v)" by (cases kv)
  have "plain_value v" using Cons.prems kv by simp
  then obtain r where r: "format_while (placeholder k) v s = Some r"
    using format_while_plain by blast
  have "\<exists>r'. format_forEach params r = Some r'"
    using Cons.IH Cons.prems by simp
  then show ?case by (simp add: kv r)
qed

lemma format_forEach_absent:
  "list_all (\<lambda>(k, v). \<not> includesStr s (placeholder k)) params \<Longrightarrow>
     format_forEach params s = Some s"
  by (induction params) (auto simp: format_while_absent)

lemma format_while_loops:
  assumes inc: "includesStr s ph" and same: "replace s ph v = s"
  shows "format_while ph v s = None"
proof (cases "format_while ph v s")
  case None
  then show ?thesis .
next
  case (Some y)
  have "(ph, v, s) \<noteq> (ph, v, s)"
  proof (rule format_while.raw_induct
      [where P = "\<lambda>a b c y. (a, b, c) \<noteq> (ph, v, s)", OF _ Some])
    fix f a b c y'
    assume IH: "\<And>a b c y'. f a b c = Some y' \<Longrightarrow> (a, b, c) \<noteq> (ph, v, s)"
      and step: "(if includesStr c a then f a b (replace c a b) else Some c) = Some y'"
    show "(a, b, c) \<noteq> (ph, v, s)"
    proof
      assume eq: "(a, b, c) = (ph, v, s)"
      with step inc same have "f ph v s = Some y'" by simp
      from IH [OF this] show False by simp
    qed
  qed
  then show ?thesis by simp
qed



section \<open>The guard of the text handler\<close>

lemma Users_console_write [simp]: "Users (console_write m t w) = Users w"
  and Messages_console_write [simp]: "Messages (console_write m t w) = Messages w"
  and Logs_console_write [simp]: "Logs (console_write m t w) = Logs w"
  and clock_console_write [simp]: "clock (console_write m t w) = clock w"
  and getSpreadsheet_console_write [simp]:
    "getSpreadsheet (console_write m t w) = getSpreadsheet w"
  and console_console_write [simp]: "console (console_write m t w) = console w @ [(m, t)]"
  by (simp_all add: console_write_def)

lemma Users_saveLog [simp]: "Users (saveLog l m w) = Users w"
  and Messages_saveLog [simp]: "Messages (saveLog l m w) = Messages w"
  and clock_saveLog [simp]: "clock (saveLog l m w) = clock w"
  and getSpreadsheet_saveLog [simp]: "getSpreadsheet (saveLog l m w) = getSpreadsheet w"
  by (simp_all add: saveLog_def split: sum.split)

lemma Users_Logger_log [simp]: "Users (Logger_log m w) = Users w"
  and Messages_Logger_log [simp]: "Messages (Logger_log m w) = Messages w"
  and clock_Logger_log [simp]: "clock (Logger_log m w) = clock w"
  and getSpreadsheet_Logger_log [simp]: "getSpreadsheet (Logger_log m w) = getSpreadsheet w"
  by (simp_all add: Logger_log_def saveToSheet_def)

lemma Users_Logger_error [simp]: "Users (Logger_error m w) = Users w"
  and Messages_Logger_error [simp]: "Messages (Logger_error m w) = Messages w"
  and clock_Logger_error [simp]: "clock (Logger_error m w) = clock w"
  and getSpreadsheet_Logger_error [simp]:
    "getSpreadsheet (Logger_error m w) = getSpreadsheet w"
  by (simp_all add: Logger_error_def saveToSheet_def)

lemma Logs_Logger_log:
  "Logs (Logger_log m w) =
     Logs w @ (if logger_isInitialized w \<and> getSpreadsheet w = Inr ()
               then [\<lparr>lcol_timestamp = clock w, lcol_level = ascii ''INFO'', lcol_message = m\<rparr>]
               else [])"
  by (auto simp: Logger_log_def saveToSheet_def saveLog_def console_write_def getSpreadsheet_def
      split: option.splits sum.splits)

lemma console_Logger_error:
  "(ConsoleError, ascii ''[ERROR] '' @ m) \<in> set (console (Logger_error m w))"
  by (auto simp: Logger_error_def saveToSheet_def saveLog_def console_write_def
      split: sum.splits)

lemma TextHandler_handle_guard:
  assumes "src_userId (ev_source e) = None \<or> src_userId (ev_source e) = Some [] \<or>
           event_text e = None \<or> event_text e = Some []"
  shows "TextHandler_handle e w = Some (Logger_log (handling_message e) w)"
  using assms
  by (auto simp: TextHandler_handle_def TextHandler_try_def TextHandler_body_def
      handling_message_def Let_def split: option.splits)

text \<open>
  An event without a user id, handled in a world whose store is set up and whose logger
  is initialised: the handler returns at its guard, and the Logs sheet, empty before,
  holds one row afterwards.
\<close>

theorem TextHandler_guard_logs:
  "map_option Logs
     (TextHandler_handle (text_event None (Some (ascii ''hi'')) (Some (ascii ''T1''))) idle_world) =
     Some [\<lparr>lcol_timestamp = 0, lcol_level = ascii ''INFO'',
            lcol_message = ascii ''TextHandler handling message: hi''\<rparr>] \<and>
   Logs idle_world = []"
  by code_simp

text \<open>
  C10.  For a text event whose source has no user id or an empty one, or whose message
  text is absent or empty, \<open>TextHandler.handle\<close> returns with the Users sheet, the
  Messages sheet and the requests to the platform as they were: no message row, no user
  row, no reply.  Its opening log line is written before the guard: the Logs sheet gets
  one INFO row when the logger is initialised and the spreadsheet can be opened, and is
  unchanged otherwise.
\<close>

theorem TextHandler_guard_frame:
  assumes "src_userId (ev_source e) = None \<or> src_userId (ev_source e) = Some [] \<or>
           event_text e = None \<or> event_text e = Some []"
  shows "\<exists>w'. TextHandler_handle e w = Some w' \<and>
           Users w' = Users w \<and> Messages w' = Messages w \<and> requests w' = requests w \<and>
           Logs w' = Logs w @
             (if logger_isInitialized w \<and> getSpreadsheet w = Inr ()
              then [\<lparr>lcol_timestamp = clock w, lcol_level = ascii ''INFO'',
                     lcol_message = handling_message e\<rparr>]
              else [])"
  unfolding TextHandler_handle_guard [OF assms]
  by (simp add: Logs_Logger_log)

theorem TextHandler_guard_frame_witness:
  "src_userId (ev_source (text_event None (Some (ascii ''hi'')) (Some (ascii ''T1'')))) = None \<and>
   (\<exists>w'. TextHandler_handle (text_event None (Some (ascii ''hi'')) (Some (ascii ''T1'')))
            idle_world = Some w' \<and>
          Users w' = [] \<and> Messages w' = [] \<and> requests w' = [] \<and> length (Logs w') = 1)"
proof -
  have g: "src_userId (ev_source (text_event None (Some (ascii ''hi'')) (Some (ascii ''T1'')))) = None"
    by (simp add: text_event_def)
  have ok: "getSpreadsheet idle_world = Inr ()" "logger_isInitialized idle_world"
    "Users idle_world = []" "Messages idle_world = []" "requests idle_world = []"
    "Logs idle_world = []"
    by (simp_all add: getSpreadsheet_def idle_world_def ascii_def)
  show ?thesis
    using TextHandler_guard_frame
      [of "text_event None (Some (ascii ''hi'')) (Some (ascii ''T1''))" idle_world] g ok
    by auto
qed


section \<open>Persistence errors\<close>

text \<open>
  The spreadsheet id is not set, so every write of the store throws.  A new user sends
  the register keyword in an event with a reply token: the writes of the message and of
  the user throw inside the store service, yet the only request of the handler is the
  reply with the registration-start text, not the generic error text, and no user row
  exists afterwards.
\<close>

theorem TextHandler_continues_after_failed_writes:
  "fst (saveMessageData
          (new_Message (ascii ''U1'') (ascii ''text'') [(ascii ''text'', KEYWORD_REGISTER)] unset_world)
          unset_world) = Inl (Error (ascii ''Spreadsheet ID is not set'')) \<and>
   fst (saveUserData (user_to_row (new_User (ascii ''U1'') None unset_world)) unset_world) =
     Inl (Error (ascii ''Spreadsheet ID is not set'')) \<and>
   map_option requests
     (TextHandler_handle
        (text_event (Some (ascii ''U1'')) (Some KEYWORD_REGISTER) (Some (ascii ''T1'')))
        unset_world) =
     Some [reply_request (ascii ''T1'') REGISTRATION_START] \<and>
   map_option Users
     (TextHandler_handle
        (text_event (Some (ascii ''U1'')) (Some KEYWORD_REGISTER) (Some (ascii ''T1'')))
        unset_world) = Some []"
  by code_simp

lemma saveUserData_fails:
  "getSpreadsheet w = Inl e \<Longrightarrow>
     saveUserData r w =
       (Inl e, console_write ConsoleError (ascii ''Error saving user data: '' @ error_message e) w)"
  by (simp add: saveUserData_def)

lemma saveMessageData_fails:
  "getSpreadsheet w = Inl e \<Longrightarrow>
     saveMessageData m w =
       (Inl e,
        console_write ConsoleError (ascii ''Error saving message data: '' @ error_message e) w)"
  by (simp add: saveMessageData_def)

text \<open>
  C4.  When the store cannot be opened, the write of a user row and the write of a
  message row throw the error to their caller, which is \<open>User.save\<close> and \<open>Message.save\<close>.
  These two catch the error, log it and return \<open>false\<close>; the sheets are as they were.
  The error therefore ends in \<open>save\<close> and reaches neither the handler nor its caller.
\<close>

theorem store_write_error_ends_in_save:
  assumes "getSpreadsheet w = Inl e"
  shows
    "fst (saveUserData (user_to_row u) w) = Inl e \<and> fst (saveMessageData m w) = Inl e \<and>
     fst (User_save u w) = False \<and> fst (Message_save m w) = False \<and>
     Users (snd (User_save u w)) = Users w \<and> Messages (snd (Message_save m w)) = Messages w \<and>
     (ConsoleError, ascii ''[ERROR] '' @ ascii ''User save error: '' @ error_message e)
       \<in> set (console (snd (User_save u w))) \<and>
     (ConsoleError, ascii ''[ERROR] '' @ ascii ''Message save error: '' @ error_message e)
       \<in> set (console (snd (Message_save m w)))"
  using assms console_Logger_error
  by (simp add: saveUserData_fails saveMessageData_fails User_save_def Message_save_def)

theorem store_write_error_ends_in_save_witness:
  "getSpreadsheet unset_world = Inl (Error (ascii ''Spreadsheet ID is not set'')) \<and>
   fst (User_save (new_User (ascii ''U1'') None unset_world) unset_world) = False \<and>
   fst (Message_save (text_row ''U1'' ''hi'' 0) unset_world) = False"
proof -
  have g: "getSpreadsheet unset_world = Inl (Error (ascii ''Spreadsheet ID is not set''))"
    by (simp add: getSpreadsheet_def unset_world_def)
  show ?thesis
    using g store_write_error_ends_in_save
      [OF g, of "new_User (ascii ''U1'') None unset_world" "text_row ''U1'' ''hi'' 0"]
    by blast
qed


section \<open>The user model on a store in reach\<close>

lemma row_user_inverse [simp]: "row_to_user (user_to_row u) = u"
  by (cases u) (simp add: row_to_user_def user_to_row_def split: option.split)

lemma user_to_row_userId [simp]: "col_userId (user_to_row u) = userId u"
  by (simp add: user_to_row_def)

lemma user_to_row_six [simp]: "push_Date (user_to_row u) t = user_to_row u"
  by (simp add: push_Date_def user_to_row_def split: option.split)

lemma User_save_ok:
  assumes "getSpreadsheet w = Inr ()"
  shows "User_save u w = (True, w\<lparr>Users := upsert_rows (user_to_row u) (Users w)\<rparr>)"
  using saveUserData_ok [OF assms, of "user_to_row u"]
  by (simp add: User_save_def upsert_rows_def)

lemma Message_save_ok:
  assumes "getSpreadsheet w = Inr ()"
  shows "Message_save m w = (True, w\<lparr>Messages := Messages w @ [m]\<rparr>)"
  using assms by (simp add: Message_save_def saveMessageData_def)

lemma User_findByUserId_ok:
  assumes "getSpreadsheet w = Inr ()"
  shows "User_findByUserId uid w = (current_user uid w, w)"
  using assms
  by (simp add: current_user_def User_findByUserId_def getUserDataByUserId_def Let_def)

lemma current_user_cong:
  "getSpreadsheet w1 = getSpreadsheet w2 \<Longrightarrow> Users w1 = Users w2 \<Longrightarrow>
     current_user uid w1 = current_user uid w2"
  by (simp add: current_user_def User_findByUserId_def getUserDataByUserId_def Let_def
      split: sum.splits)

lemma current_user_None_iff:
  assumes "getSpreadsheet w = Inr ()"
  shows "current_user uid w = None \<longleftrightarrow> uid \<notin> col_userId ` set (Users w)"
  using assms
  by (simp add: current_user_def User_findByUserId_def getUserDataByUserId_def Let_def
      findUserRow_eq)

lemma current_user_userId:
  assumes "getSpreadsheet w = Inr ()" "current_user uid w = Some u"
  shows "userId u = uid"
proof -
  have mem: "uid \<in> col_userId ` set (Users w)"
    using current_user_None_iff [OF assms(1), of uid] assms(2) by auto
  have "u = row_to_user (getValues (first_index (Users w) uid + 2) (Users w))"
    using assms mem
    by (simp add: current_user_def User_findByUserId_def getUserDataByUserId_def Let_def
        findUserRow_eq)
  then show ?thesis
    using first_index_nth [OF mem] by (simp add: row_to_user_def getValues_def Let_def)
qed

lemma current_user_after_upsert:
  assumes "getSpreadsheet w = Inr ()"
  shows "current_user (userId u) (w\<lparr>Users := upsert_rows (user_to_row u) (Users w)\<rparr>) = Some u"
proof -
  have "snd (saveUserData (user_to_row u) w) = w\<lparr>Users := upsert_rows (user_to_row u) (Users w)\<rparr>"
    using saveUserData_ok [OF assms, of "user_to_row u"] by (simp add: upsert_rows_def)
  then have "fst (getUserDataByUserId (userId u)
                 (w\<lparr>Users := upsert_rows (user_to_row u) (Users w)\<rparr>)) = Inr (Some (user_to_row u))"
    using getUserDataByUserId_after_save [OF assms, of "user_to_row u"] by simp
  then show ?thesis
    by (cases "getUserDataByUserId (userId u)
                 (w\<lparr>Users := upsert_rows (user_to_row u) (Users w)\<rparr>)")
       (simp add: current_user_def User_findByUserId_def)
qed

lemma find_or_create_ok:
  assumes "getSpreadsheet w = Inr ()"
  shows "find_or_create uid w =
     (case current_user uid w of
        Some u \<Rightarrow> (u, w)
      | None \<Rightarrow> (new_User uid None w, w\<lparr>Users := Users w @ [user_to_row (new_User uid None w)]\<rparr>))"
proof (cases "current_user uid w")
  case None
  then have "uid \<notin> col_userId ` set (Users w)"
    using current_user_None_iff [OF assms] by simp
  then have "upsert_rows (user_to_row (new_User uid None w)) (Users w) =
             Users w @ [user_to_row (new_User uid None w)]"
    by (simp add: upsert_rows_def new_User_def)
  then show ?thesis
    using None
    by (simp add: find_or_create_def User_findByUserId_ok [OF assms] User_save_ok [OF assms]
        Let_def)
next
  case (Some u)
  then show ?thesis
    by (simp add: find_or_create_def User_findByUserId_ok [OF assms])
qed

lemma find_or_create_props:
  assumes ok: "getSpreadsheet w = Inr ()"
  obtains u w' where "find_or_create uid w = (u, w')" "userId u = uid"
    "state u = current_state uid w" "current_user uid w' = Some u"
    "getSpreadsheet w' = Inr ()" "requests w' = requests w" "clock w' = clock w"
    "current_user uid w \<noteq> None \<Longrightarrow> Users w' = Users w"
proof (cases "current_user uid w")
  case None
  let ?u = "new_User uid None w"
  let ?w = "w\<lparr>Users := Users w @ [user_to_row ?u]\<rparr>"
  have up: "upsert_rows (user_to_row ?u) (Users w) = Users w @ [user_to_row ?u]"
    using current_user_None_iff [OF ok, of uid] None by (simp add: upsert_rows_def new_User_def)
  have "current_user (userId ?u) (w\<lparr>Users := upsert_rows (user_to_row ?u) (Users w)\<rparr>) = Some ?u"
    using ok by (rule current_user_after_upsert)
  then have cu: "current_user uid ?w = Some ?u"
    by (simp add: up) (simp add: new_User_def)
  show ?thesis
    by (rule that [of ?u ?w])
       (use None ok cu in \<open>simp_all add: find_or_create_ok [OF ok] current_state_def new_User_def\<close>)
next
  case (Some u)
  show ?thesis
    by (rule that [of u w])
       (use Some ok current_user_userId [OF ok Some] in
          \<open>simp_all add: find_or_create_ok [OF ok] current_state_def\<close>)
qed


section \<open>The reply templates\<close>

lemma indexOf_skip:
  "0x7B \<notin> set xs \<Longrightarrow>
     indexOf (xs @ ys) (placeholder k) = map_option (\<lambda>i. length xs + i) (indexOf ys (placeholder k))"
proof (induction xs)
  case Nil
  then show ?case by (simp add: option.map_ident)
next
  case (Cons x xs)
  then have "\<not> prefix (placeholder k) (x # xs @ ys)"
    by (auto simp: placeholder_def)
  then show ?case
    using Cons by (simp add: option.map_comp comp_def)
qed

lemma indexOf_here: "indexOf (p @ ys) p = Some 0"
proof (cases "p @ ys")
  case Nil
  then show ?thesis by simp
next
  case (Cons c s)
  have "prefix p (p @ ys)" by simp
  then show ?thesis by (simp add: Cons)
qed

lemma braces_plain: "plain_value v \<Longrightarrow> braces v = 0"
  by (auto simp: plain_value_def braces_def filter_empty_conv)

lemma includesStr_skip:
  "0x7B \<notin> set xs \<Longrightarrow> includesStr (xs @ ys) (placeholder k) = includesStr ys (placeholder k)"
  by (simp add: includesStr_def indexOf_skip)

lemma braces_zero_not_includes:
  assumes "braces s = 0"
  shows "\<not> includesStr s (placeholder k)"
proof
  assume "includesStr s (placeholder k)"
  then obtain i where "indexOf s (placeholder k) = Some i"
    by (auto simp: includesStr_def)
  from indexOf_Some [OF this]
  have "braces s = braces (take i s) + braces (placeholder k) + braces (drop (i + length (placeholder k)) s)"
    by (metis braces_append add.assoc)
  then show False
    using assms by (simp add: placeholder_def braces_def)
qed

lemma replace_at:
  assumes "0x7B \<notin> set xs" "0x24 \<notin> set v"
  shows "replace (xs @ placeholder k @ ys) (placeholder k) v = xs @ v @ ys"
proof -
  have i: "indexOf (xs @ placeholder k @ ys) (placeholder k) = Some (length xs)"
    using assms(1) by (simp add: indexOf_skip indexOf_here)
  show ?thesis
    using assms(2) by (simp add: replace_plain [OF _ i])
qed

lemma format_while_once:
  assumes "0x7B \<notin> set xs" "plain_value v" "\<not> includesStr (xs @ v @ ys) (placeholder k)"
  shows "format_while (placeholder k) v (xs @ placeholder k @ ys) = Some (xs @ v @ ys)"
proof -
  have inc: "includesStr (xs @ placeholder k @ ys) (placeholder k)"
    using assms(1) by (simp add: includesStr_def indexOf_skip indexOf_here)
  have rep: "replace (xs @ placeholder k @ ys) (placeholder k) v = xs @ v @ ys"
    using assms(1,2) by (simp add: replace_at plain_value_def)
  show ?thesis
    using inc rep assms(3)
    by (subst format_while.simps) (simp add: format_while_absent)
qed

lemma format_NAME_CONFIRMED:
  assumes "plain_value t"
  shows "format NAME_CONFIRMED [(ascii ''name'', t)] =
           Some (take 3 NAME_CONFIRMED @ t @ drop 9 NAME_CONFIRMED)"
proof -
  have split: "NAME_CONFIRMED = take 3 NAME_CONFIRMED @ placeholder (ascii ''name'') @ drop 9 NAME_CONFIRMED"
    by (simp add: NAME_CONFIRMED_def placeholder_def ascii_def)
  have nb: "0x7B \<notin> set (take 3 NAME_CONFIRMED)"
    by (simp add: NAME_CONFIRMED_def)
  have "braces (take 3 NAME_CONFIRMED @ t @ drop 9 NAME_CONFIRMED) = 0"
    using braces_plain [OF assms] by (simp add: NAME_CONFIRMED_def) (simp add: braces_def)
  then have ni: "\<not> includesStr (take 3 NAME_CONFIRMED @ t @ drop 9 NAME_CONFIRMED)
                     (placeholder (ascii ''name''))"
    by (rule braces_zero_not_includes)
  have "format_while (placeholder (ascii ''name'')) t NAME_CONFIRMED =
          Some (take 3 NAME_CONFIRMED @ t @ drop 9 NAME_CONFIRMED)"
    by (subst split) (rule format_while_once [OF nb assms ni])
  then show ?thesis by (simp add: format_def)
qed

lemma format_REGISTRATION_COMPLETED:
  assumes "plain_value n" "plain_value a"
  shows "format REGISTRATION_COMPLETED [(ascii ''name'', n), (ascii ''age'', a)] =
           Some (take 16 REGISTRATION_COMPLETED @ n @ take 5 (drop 22 REGISTRATION_COMPLETED) @ a)"
proof -
  let ?A = "take 16 REGISTRATION_COMPLETED"
  let ?B = "take 5 (drop 22 REGISTRATION_COMPLETED)"
  let ?name = "placeholder (ascii ''name'')"
  let ?age = "placeholder (ascii ''age'')"
  have split1: "REGISTRATION_COMPLETED = ?A @ ?name @ (?B @ ?age)"
    by (simp add: REGISTRATION_COMPLETED_def placeholder_def ascii_def)
  have nbA: "0x7B \<notin> set ?A" and nbB: "0x7B \<notin> set ?B"
    by (simp_all add: REGISTRATION_COMPLETED_def)
  have nbn: "0x7B \<notin> set n" using assms(1) by (simp add: plain_value_def)
  have "includesStr ((?A @ n @ ?B) @ ?age) ?name = includesStr ?age ?name"
    by (rule includesStr_skip) (use nbA nbB nbn in simp)
  also have "\<dots> = False"
    by (simp add: includesStr_def placeholder_def ascii_def)
  finally have ni1: "\<not> includesStr (?A @ n @ (?B @ ?age)) ?name" by simp
  have p1: "format_while ?name n REGISTRATION_COMPLETED = Some (?A @ n @ (?B @ ?age))"
    by (subst split1) (rule format_while_once [OF nbA assms(1) ni1])
  have "braces ((?A @ n @ ?B) @ a @ []) = 0"
    using braces_plain [OF assms(1)] braces_plain [OF assms(2)]
    by (simp add: REGISTRATION_COMPLETED_def) (simp add: braces_def)
  then have ni2: "\<not> includesStr ((?A @ n @ ?B) @ a @ []) ?age"
    by (rule braces_zero_not_includes)
  have "format_while ?age a ((?A @ n @ ?B) @ ?age @ []) = Some ((?A @ n @ ?B) @ a @ [])"
    by (rule format_while_once [OF _ assms(2) ni2]) (use nbA nbB nbn in simp)
  then have p2: "format_while ?age a (?A @ n @ (?B @ ?age)) = Some (?A @ n @ ?B @ a)"
    by simp
  show ?thesis
    by (simp add: format_def p1 p2)
qed

lemma format_DEFAULT_RESPONSE:
  "format DEFAULT_RESPONSE [(ascii ''name'', n)] = Some DEFAULT_RESPONSE"
proof -
  have "braces DEFAULT_RESPONSE = 0"
    by (simp add: DEFAULT_RESPONSE_def braces_def)
  then have "\<not> includesStr DEFAULT_RESPONSE (placeholder (ascii ''name''))"
    by (rule braces_zero_not_includes)
  then show ?thesis
    by (simp add: format_def format_while_absent)
qed


section \<open>The state handlers on a store in reach\<close>

lemma after_save_frame [simp]:
  "getSpreadsheet (after_save u w) = getSpreadsheet w"
  "requests (after_save u w) = requests w"
  "clock (after_save u w) = clock w"
  "Messages (after_save u w) = Messages w"
  by (simp_all add: after_save_def)

lemma current_user_after_save:
  "getSpreadsheet w = Inr () \<Longrightarrow> userId u = uid \<Longrightarrow> current_user uid (after_save u w) = Some u"
  using current_user_after_upsert [of w u] by (auto simp: after_save_def)

lemma updateState_ok:
  assumes "getSpreadsheet w = Inr ()"
  shows "updateState s u w =
           (True, with_state s (clock w) u, after_save (with_state s (clock w) u) w)"
  by (simp add: updateState_def User_save_ok [OF assms] with_state_def after_save_def Let_def)

lemma updateData_ok:
  assumes "getSpreadsheet w = Inr ()"
  shows "updateData nd u w =
           (True, with_data nd (clock w) u, after_save (with_data nd (clock w) u) w)"
  by (simp add: updateData_def User_save_ok [OF assms] with_data_def after_save_def Let_def)

lemma states_distinct [simp]:
  "INITIAL \<noteq> WAITING_NAME" "INITIAL \<noteq> WAITING_AGE" "INITIAL \<noteq> REGISTERED"
  "WAITING_NAME \<noteq> INITIAL" "WAITING_NAME \<noteq> WAITING_AGE" "WAITING_NAME \<noteq> REGISTERED"
  "WAITING_AGE \<noteq> INITIAL" "WAITING_AGE \<noteq> WAITING_NAME" "WAITING_AGE \<noteq> REGISTERED"
  "REGISTERED \<noteq> INITIAL" "REGISTERED \<noteq> WAITING_NAME" "REGISTERED \<noteq> WAITING_AGE"
  by (simp_all add: INITIAL_def WAITING_NAME_def WAITING_AGE_def REGISTERED_def ascii_def)

lemma keywords_distinct [simp]: "KEYWORD_REGISTER \<noteq> KEYWORD_HELP" "KEYWORD_HELP \<noteq> KEYWORD_REGISTER"
  by (simp_all add: KEYWORD_REGISTER_def KEYWORD_HELP_def)

lemma with_state_simps [simp]:
  "state (with_state s t u) = s" "userId (with_state s t u) = userId u"
  "data (with_state s t u) = data u"
  by (simp_all add: with_state_def)

lemma with_data_simps [simp]:
  "state (with_data nd t u) = state u" "userId (with_data nd t u) = userId u"
  "data (with_data nd t u) = spread (data u) nd"
  by (simp_all add: with_data_def)

text \<open>The switch on a store in reach, state by state.\<close>

lemma switch_INITIAL:
  assumes "getSpreadsheet w = Inr ()" "state u = INITIAL"
  shows "switch_state t u w =
     (if t = KEYWORD_REGISTER
      then (Some REGISTRATION_START, after_save (with_state WAITING_NAME (clock w) u) w)
      else if t = KEYWORD_HELP then (Some HELP, w) else (Some WELCOME, w))"
  using assms by (simp add: switch_state_def handleInitialState_def updateState_ok)

lemma switch_WAITING_NAME:
  assumes "getSpreadsheet w = Inr ()" "state u = WAITING_NAME"
  shows "switch_state t u w =
     (if length (trim t) < 2 then (Some INVALID_NAME, w)
      else (format NAME_CONFIRMED [(ascii ''name'', t)],
            after_save
              (with_state WAITING_AGE (clock w)
                 (with_data \<lparr>d_name = Some t, d_age = None\<rparr> (clock w) u))
              (after_save (with_data \<lparr>d_name = Some t, d_age = None\<rparr> (clock w) u) w)))"
  using assms
  by (simp add: switch_state_def handleWaitingNameState_def updateState_ok updateData_ok)

lemma switch_WAITING_AGE:
  assumes "getSpreadsheet w = Inr ()" "state u = WAITING_AGE"
  shows "switch_state t u w =
     (case parseInt t of
        NaN \<Rightarrow> (Some INVALID_AGE, w)
      | Minus_huge \<Rightarrow> (Some INVALID_AGE, w)
      | Huge \<Rightarrow> (Some INVALID_AGE, w)
      | Number age \<Rightarrow>
          if age < 1 \<or> age > 120 then (Some INVALID_AGE, w)
          else (format REGISTRATION_COMPLETED
                  [(ascii ''name'',
                    name_or_empty (with_data \<lparr>d_name = None, d_age = Some age\<rparr> (clock w) u)),
                   (ascii ''age'', toString age)],
                after_save
                  (with_state REGISTERED (clock w)
                     (with_data \<lparr>d_name = None, d_age = Some age\<rparr> (clock w) u))
                  (after_save
                     (with_data \<lparr>d_name = None, d_age = Some age\<rparr> (clock w) u) w)))"
  using assms
  by (simp add: switch_state_def handleWaitingAgeState_def updateState_ok updateData_ok
      name_or_empty_def split: number.split)

lemma switch_REGISTERED:
  assumes "state u = REGISTERED"
  shows "switch_state t u w =
     (if t = KEYWORD_HELP then (Some HELP, w) else (Some DEFAULT_RESPONSE, w))"
  using assms
  by (simp add: switch_state_def handleRegisteredState_def format_DEFAULT_RESPONSE)

section \<open>The text handler on a store in reach\<close>

lemma post_frame [simp]:
  "Users (snd (post url pl w)) = Users w"
  "Messages (snd (post url pl w)) = Messages w"
  "getSpreadsheet (snd (post url pl w)) = getSpreadsheet w"
  by (simp_all add: post_def UrlFetchApp_fetch_def Let_def split: fetch_result.split)

lemma replyText_frame [simp]:
  "Users (snd (replyText tok r w)) = Users w"
  "Messages (snd (replyText tok r w)) = Messages w"
  "getSpreadsheet (snd (replyText tok r w)) = getSpreadsheet w"
  by (simp_all add: replyText_def)

lemma replyText_returns: "\<exists>r. fst (replyText tok resp w) = Inr r"
  unfolding replyText_def by (rule post_returns)

lemma find_or_create_found:
  assumes "getSpreadsheet w = Inr ()" "current_user uid w = Some u0"
  shows "find_or_create uid w = (u0, w)"
  using assms by (simp add: find_or_create_ok)

lemma TextHandler_handle_ok:
  assumes ok: "getSpreadsheet w = Inr ()"
    and src: "src_userId (ev_source e) = Some uid" "uid \<noteq> []"
    and tx: "event_text e = Some t" "t \<noteq> []"
  obtains u w4 where
    "userId u = uid" "state u = current_state uid w" "current_user uid w4 = Some u"
    "getSpreadsheet w4 = Inr ()" "requests w4 = requests w"
    "current_user uid w \<noteq> None \<Longrightarrow> Users w4 = Users w"
    "name_or_empty u = stored_name uid w"
    "written e w = snd (switch_state t u w4)"
    "TextHandler_handle e w =
       (case switch_state t u w4 of
          (None, w5) \<Rightarrow> None
        | (Some resp, w5) \<Rightarrow> Some (snd (replyText (token_of e) resp w5)))"
proof -
  define w1 where "w1 = Logger_log (ascii ''TextHandler handling message: '' @ t) w"
  define w2 where
    "w2 = w1\<lparr>Messages := Messages w1 @
             [new_Message uid (ascii ''text'') [(ascii ''text'', t)] w1]\<rparr>"
  have ok1: "getSpreadsheet w1 = Inr ()" by (simp add: w1_def ok)
  have ok2: "getSpreadsheet w2 = Inr ()" by (simp add: w2_def ok1)
  have cu2: "current_user uid w2 = current_user uid w"
    by (rule current_user_cong) (simp_all add: w2_def w1_def)
  have ms: "Message_save (new_Message uid (ascii ''text'') [(ascii ''text'', t)] w1) w1 = (True, w2)"
    by (simp add: Message_save_ok [OF ok1] w2_def)
  obtain u w4 where fc: "find_or_create uid w2 = (u, w4)" "userId u = uid"
    "state u = current_state uid w2" "current_user uid w4 = Some u"
    "getSpreadsheet w4 = Inr ()" "requests w4 = requests w2"
    "current_user uid w2 \<noteq> None \<Longrightarrow> Users w4 = Users w2"
    using find_or_create_props [OF ok2, of uid] by metis
  have nm: "name_or_empty u = stored_name uid w"
  proof (cases "current_user uid w")
    case None
    then have "find_or_create uid w2 = (new_User uid None w2,
        w2\<lparr>Users := Users w2 @ [user_to_row (new_User uid None w2)]\<rparr>)"
      using cu2 by (simp add: find_or_create_ok [OF ok2])
    then have "u = new_User uid None w2" using fc(1) by simp
    then show ?thesis
      using None by (simp add: stored_name_def name_or_empty_def new_User_def)
  next
    case (Some u0)
    then have "find_or_create uid w2 = (u0, w2)"
      using cu2 by (simp add: find_or_create_found [OF ok2])
    then have "u = u0" using fc(1) by simp
    then show ?thesis using Some by (simp add: stored_name_def)
  qed
  obtain resp w5 where sw: "switch_state t u w4 = (resp, w5)"
    by (cases "switch_state t u w4")
  have b: "TextHandler_body e w =
       (case resp of None \<Rightarrow> (In_format, w5) | Some r \<Rightarrow> (At_reply r, w5))"
    using src tx ms fc(1) sw
    by (simp add: TextHandler_body_def w1_def [symmetric] Let_def split: option.split)
  have wr: "written e w = snd (switch_state t u w4)"
    using b sw by (simp add: written_def split: option.split)
  have h: "TextHandler_handle e w =
       (case switch_state t u w4 of
          (None, w5) \<Rightarrow> None
        | (Some resp, w5) \<Rightarrow> Some (snd (replyText (token_of e) resp w5)))"
  proof (cases resp)
    case None
    then show ?thesis
      using b sw by (simp add: TextHandler_handle_def TextHandler_try_def)
  next
    case (Some r0)
    obtain r where r: "fst (replyText (token_of e) r0 w5) = Inr r"
      using replyText_returns by blast
    then have rt: "replyText (token_of e) r0 w5 = (Inr r, snd (replyText (token_of e) r0 w5))"
      by (simp add: prod_eq_iff)
    show ?thesis
      using b sw Some
      by (simp add: TextHandler_handle_def TextHandler_try_def token_of_def [symmetric])
         (subst rt, simp)
  qed
  show ?thesis
  proof (rule that [of u w4])
    show "state u = current_state uid w"
      using fc(3) cu2 by (simp add: current_state_def)
    show "requests w4 = requests w"
      using fc(6) by (simp add: w2_def w1_def)
    show "Users w4 = Users w" if "current_user uid w \<noteq> None"
      using fc(7) that cu2 by (simp add: w2_def w1_def)
  qed (use fc nm wr h in simp_all)
qed

lemma outcome_of_handle:
  assumes "TextHandler_handle e w = Some (snd (replyText tok resp w5))"
    and "requests w5 = requests w"
  shows "outcome e uid w = Some (current_state uid w5, [reply_request tok resp])"
proof -
  have "current_user uid (snd (replyText tok resp w5)) = current_user uid w5"
    by (rule current_user_cong) simp_all
  then have "current_state uid (snd (replyText tok resp w5)) = current_state uid w5"
    by (simp add: current_state_def)
  then show ?thesis
    using assms by (simp add: outcome_def replyText_requests)
qed

lemma current_state_after_save:
  "getSpreadsheet w = Inr () \<Longrightarrow> userId u = uid \<Longrightarrow>
     current_state uid (after_save u w) = state u"
  by (simp add: current_state_def current_user_after_save)

lemma digit_not_dollar: "d < 10 \<Longrightarrow> (of_nat (0x30 + d) :: code_unit) \<noteq> 0x24"
proof
  assume d: "d < 10" and eq: "(of_nat (0x30 + d) :: code_unit) = 0x24"
  have "unat (of_nat (0x30 + d) :: code_unit) = (0x30 + d) mod 2 ^ LENGTH(16)"
    by (rule unat_of_nat)
  also have "\<dots> = 0x30 + d"
    using d by simp
  finally show False
    using d unfolding eq by simp
qed

lemma digit_not_brace: "d < 10 \<Longrightarrow> (of_nat (0x30 + d) :: code_unit) \<noteq> 0x7B"
proof
  assume d: "d < 10" and eq: "(of_nat (0x30 + d) :: code_unit) = 0x7B"
  have "unat (of_nat (0x30 + d) :: code_unit) = (0x30 + d) mod 2 ^ LENGTH(16)"
    by (rule unat_of_nat)
  also have "\<dots> = 0x30 + d"
    using d by simp
  finally show False
    using d unfolding eq by simp
qed

lemma plain_natToString: "plain_value (natToString n)"
proof (induction n rule: natToString.induct)
  case (1 n)
  show ?case
  proof (cases "n < 10")
    case True
    then show ?thesis
      using digit_not_dollar [of n] digit_not_brace [of n]
      by (subst natToString.simps) (simp add: plain_value_def)
  next
    case False
    have "n mod 10 < 10" by simp
    then show ?thesis
      using False 1 digit_not_dollar [of "n mod 10"] digit_not_brace [of "n mod 10"]
      by (subst natToString.simps) (simp add: plain_value_def)
  qed
qed

lemma plain_toString: "0 \<le> a \<Longrightarrow> plain_value (toString a)"
  by (simp add: toString_def plain_natToString)

lemma rows_INITIAL:
  assumes ok: "getSpreadsheet w = Inr ()"
    and src: "src_userId (ev_source e) = Some uid" "uid \<noteq> []"
    and tx: "event_text e = Some t" "t \<noteq> []"
    and st: "current_state uid w = INITIAL"
  shows "outcome e uid w =
           Some (if t = KEYWORD_REGISTER then WAITING_NAME else INITIAL,
                 [reply_request (token_of e)
                    (if t = KEYWORD_REGISTER then REGISTRATION_START
                     else if t = KEYWORD_HELP then HELP else WELCOME)])"
    and "\<exists>w'. TextHandler_handle e w = Some w' \<and> current_user uid w' \<noteq> None"
proof -
  obtain u w4 where p: "userId u = uid" "state u = current_state uid w"
    "current_user uid w4 = Some u" "getSpreadsheet w4 = Inr ()" "requests w4 = requests w"
    "current_user uid w \<noteq> None \<Longrightarrow> Users w4 = Users w"
    "name_or_empty u = stored_name uid w"
    and wr: "written e w = snd (switch_state t u w4)"
    and h: "TextHandler_handle e w =
       (case switch_state t u w4 of
          (None, w5) \<Rightarrow> None
        | (Some resp, w5) \<Rightarrow> Some (snd (replyText (token_of e) resp w5)))"
    by (rule TextHandler_handle_ok [OF ok src tx]) blast
  have sw: "switch_state t u w4 =
     (if t = KEYWORD_REGISTER
      then (Some REGISTRATION_START, after_save (with_state WAITING_NAME (clock w4) u) w4)
      else if t = KEYWORD_HELP then (Some HELP, w4) else (Some WELCOME, w4))"
    using p st by (simp add: switch_INITIAL)
  have cs4: "current_state uid w4 = INITIAL"
    using p st by (simp add: current_state_def)
  show "outcome e uid w =
           Some (if t = KEYWORD_REGISTER then WAITING_NAME else INITIAL,
                 [reply_request (token_of e)
                    (if t = KEYWORD_REGISTER then REGISTRATION_START
                     else if t = KEYWORD_HELP then HELP else WELCOME)])"
  proof (cases "t = KEYWORD_REGISTER")
    case True
    have sw1: "switch_state t u w4 =
        (Some REGISTRATION_START, after_save (with_state WAITING_NAME (clock w4) u) w4)"
      using sw True by simp
    have "outcome e uid w =
        Some (current_state uid (after_save (with_state WAITING_NAME (clock w4) u) w4),
              [reply_request (token_of e) REGISTRATION_START])"
      by (rule outcome_of_handle) (simp_all add: h sw1 p)
    then show ?thesis
      using True p by (simp add: current_state_after_save)
  next
    case False
    have sw2: "switch_state t u w4 = (Some (if t = KEYWORD_HELP then HELP else WELCOME), w4)"
      using sw False by simp
    have "outcome e uid w =
        Some (current_state uid w4,
              [reply_request (token_of e) (if t = KEYWORD_HELP then HELP else WELCOME)])"
      by (rule outcome_of_handle) (simp_all add: h sw2 p)
    then show ?thesis
      using False cs4 by simp
  qed
  show "\<exists>w'. TextHandler_handle e w = Some w' \<and> current_user uid w' \<noteq> None"
  proof (cases "t = KEYWORD_REGISTER")
    case True
    let ?w5 = "after_save (with_state WAITING_NAME (clock w4) u) w4"
    have "current_user uid (snd (replyText (token_of e) REGISTRATION_START ?w5)) =
          current_user uid ?w5"
      by (rule current_user_cong) simp_all
    moreover have "switch_state t u w4 = (Some REGISTRATION_START, ?w5)"
      using sw True by simp
    ultimately show ?thesis
      using p by (simp add: h current_user_after_save)
  next
    case False
    have "current_user uid (snd (replyText (token_of e) r w4)) = current_user uid w4" for r
      by (rule current_user_cong) simp_all
    moreover have "switch_state t u w4 = (Some (if t = KEYWORD_HELP then HELP else WELCOME), w4)"
      using sw False by simp
    ultimately show ?thesis
      using p by (simp add: h)
  qed
qed

lemma rows_REGISTERED:
  assumes ok: "getSpreadsheet w = Inr ()"
    and src: "src_userId (ev_source e) = Some uid" "uid \<noteq> []"
    and tx: "event_text e = Some t" "t \<noteq> []"
    and st: "current_state uid w = REGISTERED"
  shows "outcome e uid w =
           Some (REGISTERED,
                 [reply_request (token_of e) (if t = KEYWORD_HELP then HELP else DEFAULT_RESPONSE)])"
    and "map_option Users (TextHandler_handle e w) = Some (Users w)"
proof -
  obtain u w4 where p: "userId u = uid" "state u = current_state uid w"
    "current_user uid w4 = Some u" "getSpreadsheet w4 = Inr ()" "requests w4 = requests w"
    "current_user uid w \<noteq> None \<Longrightarrow> Users w4 = Users w"
    "name_or_empty u = stored_name uid w"
    and wr: "written e w = snd (switch_state t u w4)"
    and h: "TextHandler_handle e w =
       (case switch_state t u w4 of
          (None, w5) \<Rightarrow> None
        | (Some resp, w5) \<Rightarrow> Some (snd (replyText (token_of e) resp w5)))"
    by (rule TextHandler_handle_ok [OF ok src tx]) blast
  have sw: "switch_state t u w4 =
     (if t = KEYWORD_HELP then (Some HELP, w4) else (Some DEFAULT_RESPONSE, w4))"
    using p st by (simp add: switch_REGISTERED)
  have cs4: "current_state uid w4 = REGISTERED"
    using p st by (simp add: current_state_def)
  have "current_user uid w \<noteq> None"
    using st by (cases "current_user uid w") (simp_all add: current_state_def)
  then have us: "Users w4 = Users w" by (rule p(6))
  have sw': "switch_state t u w4 =
      (Some (if t = KEYWORD_HELP then HELP else DEFAULT_RESPONSE), w4)"
    using sw by simp
  have "outcome e uid w =
      Some (current_state uid w4,
            [reply_request (token_of e) (if t = KEYWORD_HELP then HELP else DEFAULT_RESPONSE)])"
    by (rule outcome_of_handle) (simp_all add: h sw' p)
  then show "outcome e uid w =
           Some (REGISTERED,
                 [reply_request (token_of e) (if t = KEYWORD_HELP then HELP else DEFAULT_RESPONSE)])"
    using cs4 by simp
  show "map_option Users (TextHandler_handle e w) = Some (Users w)"
    using us by (simp add: h sw')
qed

text \<open>When the handler returns, the user that it leaves in the store is the user that it
  had written before the reply.\<close>

lemma TextHandler_handle_written:
  assumes ok: "getSpreadsheet w = Inr ()"
    and src: "src_userId (ev_source e) = Some uid" "uid \<noteq> []"
    and tx: "event_text e = Some t" "t \<noteq> []"
    and ret: "TextHandler_handle e w = Some w'"
  shows "Users w' = Users (written e w)"
    and "current_user k w' = current_user k (written e w)"
proof -
  obtain u w4 where p: "userId u = uid" "state u = current_state uid w"
    "current_user uid w4 = Some u" "getSpreadsheet w4 = Inr ()" "requests w4 = requests w"
    "current_user uid w \<noteq> None \<Longrightarrow> Users w4 = Users w"
    "name_or_empty u = stored_name uid w"
    and wr: "written e w = snd (switch_state t u w4)"
    and h: "TextHandler_handle e w =
       (case switch_state t u w4 of
          (None, w5) \<Rightarrow> None
        | (Some resp, w5) \<Rightarrow> Some (snd (replyText (token_of e) resp w5)))"
    by (rule TextHandler_handle_ok [OF ok src tx]) blast
  obtain resp w5 where sw: "switch_state t u w4 = (resp, w5)"
    by (cases "switch_state t u w4")
  have "Users w' = Users (written e w) \<and> current_user k w' = current_user k (written e w)"
  proof (cases resp)
    case None
    then show ?thesis using h sw ret by simp
  next
    case (Some r)
    then have w': "w' = snd (replyText (token_of e) r w5)"
      using h sw ret by simp
    have "current_user k (snd (replyText (token_of e) r w5)) = current_user k w5"
      by (rule current_user_cong) simp_all
    then show ?thesis
      using w' wr sw by simp
  qed
  then show "Users w' = Users (written e w)"
    and "current_user k w' = current_user k (written e w)"
    by simp_all
qed

lemma rows_WAITING_NAME:
  assumes ok: "getSpreadsheet w = Inr ()"
    and src: "src_userId (ev_source e) = Some uid" "uid \<noteq> []"
    and tx: "event_text e = Some t" "t \<noteq> []"
    and st: "current_state uid w = WAITING_NAME"
  shows "length (trim t) < 2 \<Longrightarrow>
           outcome e uid w = Some (WAITING_NAME, [reply_request (token_of e) INVALID_NAME])"
    and "length (trim t) < 2 \<Longrightarrow> map_option Users (TextHandler_handle e w) = Some (Users w)"
    and "2 \<le> length (trim t) \<Longrightarrow> current_state uid (written e w) = WAITING_AGE"
    and "2 \<le> length (trim t) \<Longrightarrow> stored_name uid (written e w) = t"
    and "2 \<le> length (trim t) \<Longrightarrow> format NAME_CONFIRMED [(ascii ''name'', t)] = Some r \<Longrightarrow>
           outcome e uid w = Some (WAITING_AGE, [reply_request (token_of e) r])"
proof -
  obtain u w4 where p: "userId u = uid" "state u = current_state uid w"
    "current_user uid w4 = Some u" "getSpreadsheet w4 = Inr ()" "requests w4 = requests w"
    "current_user uid w \<noteq> None \<Longrightarrow> Users w4 = Users w"
    "name_or_empty u = stored_name uid w"
    and wr: "written e w = snd (switch_state t u w4)"
    and h: "TextHandler_handle e w =
       (case switch_state t u w4 of
          (None, w5) \<Rightarrow> None
        | (Some resp, w5) \<Rightarrow> Some (snd (replyText (token_of e) resp w5)))"
    by (rule TextHandler_handle_ok [OF ok src tx]) blast
  define u1 where "u1 = with_data \<lparr>d_name = Some t, d_age = None\<rparr> (clock w4) u"
  define u2 where "u2 = with_state WAITING_AGE (clock w4) u1"
  define w5 where "w5 = after_save u2 (after_save u1 w4)"
  have sw: "switch_state t u w4 =
     (if length (trim t) < 2 then (Some INVALID_NAME, w4)
      else (format NAME_CONFIRMED [(ascii ''name'', t)], w5))"
    unfolding w5_def u2_def u1_def using p st by (simp add: switch_WAITING_NAME)
  have cs4: "current_state uid w4 = WAITING_NAME"
    using p st by (simp add: current_state_def)
  have "current_user uid w \<noteq> None"
    using st by (cases "current_user uid w") (simp_all add: current_state_def)
  then have us: "Users w4 = Users w" by (rule p(6))
  have u2: "userId u2 = uid" "state u2 = WAITING_AGE" "name_or_empty u2 = t"
    using p by (simp_all add: u2_def u1_def name_or_empty_def spread_def)
  have ok1: "getSpreadsheet (after_save u1 w4) = Inr ()"
    using p by simp
  have cu5: "current_user uid w5 = Some u2"
    unfolding w5_def using ok1 u2(1) by (rule current_user_after_save)
  {
    assume short: "length (trim t) < 2"
    have sw1: "switch_state t u w4 = (Some INVALID_NAME, w4)"
      using sw short by simp
    have "outcome e uid w = Some (current_state uid w4, [reply_request (token_of e) INVALID_NAME])"
      by (rule outcome_of_handle) (simp_all add: h sw1 p)
    then show "outcome e uid w = Some (WAITING_NAME, [reply_request (token_of e) INVALID_NAME])"
      using cs4 by simp
    show "map_option Users (TextHandler_handle e w) = Some (Users w)"
      using us by (simp add: h sw1)
  }
  {
    assume long: "2 \<le> length (trim t)"
    have "written e w = w5"
      using wr sw long by simp
    then show "current_state uid (written e w) = WAITING_AGE"
      and "stored_name uid (written e w) = t"
      using cu5 u2 by (simp_all add: current_state_def stored_name_def)
  }
  {
    assume long: "2 \<le> length (trim t)"
      and f: "format NAME_CONFIRMED [(ascii ''name'', t)] = Some r"
    have sw2: "switch_state t u w4 = (Some r, w5)"
      using sw long f by simp
    have "outcome e uid w = Some (current_state uid w5, [reply_request (token_of e) r])"
      by (rule outcome_of_handle) (simp_all add: h sw2 p w5_def)
    then show "outcome e uid w = Some (WAITING_AGE, [reply_request (token_of e) r])"
      using cu5 u2 by (simp add: current_state_def)
  }
qed

lemma rows_WAITING_AGE:
  assumes ok: "getSpreadsheet w = Inr ()"
    and src: "src_userId (ev_source e) = Some uid" "uid \<noteq> []"
    and tx: "event_text e = Some t" "t \<noteq> []"
    and st: "current_state uid w = WAITING_AGE"
  shows "\<forall>a. parseInt t = Number a \<longrightarrow> a < 1 \<or> 120 < a \<Longrightarrow>
           outcome e uid w = Some (WAITING_AGE, [reply_request (token_of e) INVALID_AGE])"
    and "\<forall>a. parseInt t = Number a \<longrightarrow> a < 1 \<or> 120 < a \<Longrightarrow>
           map_option Users (TextHandler_handle e w) = Some (Users w)"
    and "parseInt t = Number a \<Longrightarrow> 1 \<le> a \<Longrightarrow> a \<le> 120 \<Longrightarrow>
           current_state uid (written e w) = REGISTERED"
    and "parseInt t = Number a \<Longrightarrow> 1 \<le> a \<Longrightarrow> a \<le> 120 \<Longrightarrow>
           stored_age uid (written e w) = Some a"
    and "parseInt t = Number a \<Longrightarrow> 1 \<le> a \<Longrightarrow> a \<le> 120 \<Longrightarrow>
           stored_name uid (written e w) = stored_name uid w"
    and "parseInt t = Number a \<Longrightarrow> 1 \<le> a \<Longrightarrow> a \<le> 120 \<Longrightarrow>
           format REGISTRATION_COMPLETED
             [(ascii ''name'', stored_name uid w), (ascii ''age'', toString a)] = Some r \<Longrightarrow>
           outcome e uid w = Some (REGISTERED, [reply_request (token_of e) r])"
proof -
  obtain u w4 where p: "userId u = uid" "state u = current_state uid w"
    "current_user uid w4 = Some u" "getSpreadsheet w4 = Inr ()" "requests w4 = requests w"
    "current_user uid w \<noteq> None \<Longrightarrow> Users w4 = Users w"
    "name_or_empty u = stored_name uid w"
    and wr: "written e w = snd (switch_state t u w4)"
    and h: "TextHandler_handle e w =
       (case switch_state t u w4 of
          (None, w5) \<Rightarrow> None
        | (Some resp, w5) \<Rightarrow> Some (snd (replyText (token_of e) resp w5)))"
    by (rule TextHandler_handle_ok [OF ok src tx]) blast
  have sw: "switch_state t u w4 =
     (case parseInt t of
        NaN \<Rightarrow> (Some INVALID_AGE, w4)
      | Minus_huge \<Rightarrow> (Some INVALID_AGE, w4)
      | Huge \<Rightarrow> (Some INVALID_AGE, w4)
      | Number age \<Rightarrow>
          if age < 1 \<or> age > 120 then (Some INVALID_AGE, w4)
          else (format REGISTRATION_COMPLETED
                  [(ascii ''name'',
                    name_or_empty (with_data \<lparr>d_name = None, d_age = Some age\<rparr> (clock w4) u)),
                   (ascii ''age'', toString age)],
                after_save
                  (with_state REGISTERED (clock w4)
                     (with_data \<lparr>d_name = None, d_age = Some age\<rparr> (clock w4) u))
                  (after_save
                     (with_data \<lparr>d_name = None, d_age = Some age\<rparr> (clock w4) u) w4)))"
    using p st by (simp add: switch_WAITING_AGE)
  have cs4: "current_state uid w4 = WAITING_AGE"
    using p st by (simp add: current_state_def)
  have "current_user uid w \<noteq> None"
    using st by (cases "current_user uid w") (simp_all add: current_state_def)
  then have us: "Users w4 = Users w" by (rule p(6))
  define u1 where "u1 = with_data \<lparr>d_name = None, d_age = Some a\<rparr> (clock w4) u"
  define u2 where "u2 = with_state REGISTERED (clock w4) u1"
  define w5 where "w5 = after_save u2 (after_save u1 w4)"
  have nm: "name_or_empty u1 = stored_name uid w"
    using p(7) by (simp add: u1_def name_or_empty_def spread_def)
  have u2: "userId u2 = uid" "state u2 = REGISTERED" "d_age (data u2) = Some a"
    "name_or_empty u2 = stored_name uid w"
    using p by (simp_all add: u2_def u1_def spread_def name_or_empty_def)
  have ok1: "getSpreadsheet (after_save u1 w4) = Inr ()"
    using p by simp
  have cu5: "current_user uid w5 = Some u2"
    unfolding w5_def using ok1 u2(1) by (rule current_user_after_save)
  have sw2: "switch_state t u w4 =
      (format REGISTRATION_COMPLETED
         [(ascii ''name'', stored_name uid w), (ascii ''age'', toString a)], w5)"
    if "parseInt t = Number a" "1 \<le> a" "a \<le> 120"
    using sw that
    by (simp add: u1_def [symmetric] u2_def [symmetric] w5_def [symmetric] nm)
  {
    assume inv: "\<forall>a. parseInt t = Number a \<longrightarrow> a < 1 \<or> 120 < a"
    have sw1: "switch_state t u w4 = (Some INVALID_AGE, w4)"
      using sw inv by (cases "parseInt t") auto
    have "outcome e uid w = Some (current_state uid w4, [reply_request (token_of e) INVALID_AGE])"
      by (rule outcome_of_handle) (simp_all add: h sw1 p)
    then show "outcome e uid w = Some (WAITING_AGE, [reply_request (token_of e) INVALID_AGE])"
      using cs4 by simp
    show "map_option Users (TextHandler_handle e w) = Some (Users w)"
      using us by (simp add: h sw1)
  }
  {
    assume a: "parseInt t = Number a" "1 \<le> a" "a \<le> 120"
    have "written e w = w5"
      using wr sw2 [OF a] by simp
    then show "current_state uid (written e w) = REGISTERED"
      and "stored_age uid (written e w) = Some a"
      and "stored_name uid (written e w) = stored_name uid w"
      using cu5 u2 by (simp_all add: current_state_def stored_age_def stored_name_def)
  }
  {
    assume a: "parseInt t = Number a" "1 \<le> a" "a \<le> 120"
      and f: "format REGISTRATION_COMPLETED
             [(ascii ''name'', stored_name uid w), (ascii ''age'', toString a)] = Some r"
    have sw3: "switch_state t u w4 = (Some r, w5)"
      using sw2 [OF a] f by simp
    have "outcome e uid w = Some (current_state uid w5, [reply_request (token_of e) r])"
      by (rule outcome_of_handle) (simp_all add: h sw3 p w5_def)
    then show "outcome e uid w = Some (REGISTERED, [reply_request (token_of e) r])"
      using cu5 u2 by (simp add: current_state_def)
  }
qed

section \<open>Reading an age\<close>

lemma unat_digit: "d < 10 \<Longrightarrow> unat (of_nat (0x30 + d) :: code_unit) = 0x30 + d"
proof -
  assume d: "d < 10"
  have "unat (of_nat (0x30 + d) :: code_unit) = (0x30 + d) mod 2 ^ LENGTH(16)"
    by (rule unat_of_nat)
  also have "\<dots> = 0x30 + d"
    using d by simp
  finally show ?thesis .
qed

lemma isDecimalDigit_unat: "isDecimalDigit c \<longleftrightarrow> 0x30 \<le> unat c \<and> unat c \<le> 0x39"
  by (simp add: isDecimalDigit_def word_le_nat_alt)

lemma digit_isDecimalDigit: "d < 10 \<Longrightarrow> isDecimalDigit (of_nat (0x30 + d))"
  unfolding isDecimalDigit_unat using unat_digit [of d] by (simp del: of_nat_add)

lemma digitValue_digit: "d < 10 \<Longrightarrow> digitValue (of_nat (0x30 + d)) = Some d"
proof -
  assume d: "d < 10"
  have "isDecimalDigit (of_nat (0x30 + d))" using d by (rule digit_isDecimalDigit)
  then have "digitValue (of_nat (0x30 + d)) = Some (unat (of_nat (0x30 + d) :: code_unit) - 0x30)"
    unfolding digitValue_def isDecimalDigit_def by (simp only: if_True simp_thms)
  then show ?thesis
    unfolding unat_digit [OF d] by simp
qed

lemma isDecimalDigit_neq:
  assumes "isDecimalDigit c" "unat k < 0x30 \<or> 0x39 < unat k"
  shows "c \<noteq> k"
  using assms unfolding isDecimalDigit_unat by auto

lemma isDecimalDigit_not_sign:
  assumes "isDecimalDigit c"
  shows "c \<noteq> 0x2D" "c \<noteq> 0x2B" "c \<noteq> 0x78" "c \<noteq> 0x58"
  by (rule isDecimalDigit_neq [OF assms], simp)+

lemma isDecimalDigit_not_space:
  assumes "isDecimalDigit c"
  shows "\<not> isWhiteSpace c"
proof -
  have r: "\<not> 0x2000 \<le> c"
    using assms unfolding isDecimalDigit_unat word_le_nat_alt by simp
  have "c \<noteq> 0x09" "c \<noteq> 0x0A" "c \<noteq> 0x0B" "c \<noteq> 0x0C" "c \<noteq> 0x0D" "c \<noteq> 0x20" "c \<noteq> 0xA0"
    "c \<noteq> 0x1680" "c \<noteq> 0x2028" "c \<noteq> 0x2029" "c \<noteq> 0x202F" "c \<noteq> 0x205F" "c \<noteq> 0x3000"
    "c \<noteq> 0xFEFF"
    by (rule isDecimalDigit_neq [OF assms], simp)+
  then show ?thesis
    using r unfolding isWhiteSpace_def by simp
qed

lemma isDecimalDigit_radix: "isDecimalDigit c \<Longrightarrow> isRadixDigit 10 c"
proof -
  assume a: "isDecimalDigit c"
  then have "digitValue c = Some (unat c - 0x30)"
    unfolding digitValue_def isDecimalDigit_def by (simp only: if_True simp_thms)
  then show ?thesis
    using a unfolding isDecimalDigit_unat by (simp add: isRadixDigit_def) arith
qed


lemma natToString_digits:
  "natToString n \<noteq> [] \<and> list_all isDecimalDigit (natToString n)"
proof (induction n rule: natToString.induct)
  case (1 n)
  show ?case
  proof (cases "n < 10")
    case True
    then show ?thesis
      using digit_isDecimalDigit [of n]
      by (subst (1 2) natToString.simps) (simp del: of_nat_add)
  next
    case False
    have "n mod 10 < 10" by simp
    then have "isDecimalDigit (of_nat (0x30 + n mod 10))" by (rule digit_isDecimalDigit)
    then show ?thesis
      using False 1
      by (subst (1 2) natToString.simps) (simp del: of_nat_add)
  qed
qed

lemma mathInt_snoc: "mathInt R (Z @ [c]) = mathInt R Z * R + the (digitValue c)"
  by (simp add: mathInt_def)

lemma mathInt_natToString: "mathInt 10 (natToString n) = n"
proof (induction n rule: natToString.induct)
  case (1 n)
  show ?case
  proof (cases "n < 10")
    case True
    then show ?thesis
      using digitValue_digit [of n]
      by (subst natToString.simps) (simp add: mathInt_def del: of_nat_add)
  next
    case False
    have "n mod 10 < 10" by simp
    then have "digitValue (of_nat (0x30 + n mod 10)) = Some (n mod 10)"
      by (rule digitValue_digit)
    then show ?thesis
      using False 1
      by (subst natToString.simps) (simp add: mathInt_snoc del: of_nat_add)
  qed
qed

lemma parseInt_digits:
  assumes "s \<noteq> []" "list_all isDecimalDigit s"
  shows "parseInt s = toNumber (int (mathInt 10 s))"
    and "parseInt (0x2D # s) = toNumber (- int (mathInt 10 s))"
proof -
  obtain c r where s: "s = c # r" using assms(1) by (cases s) auto
  have c: "isDecimalDigit c" using assms(2) s by simp
  have nohex: "(2 \<le> length s \<and> (take 2 s = [0x30, 0x78] \<or> take 2 s = [0x30, 0x58])) = False"
  proof (cases r)
    case Nil
    then show ?thesis using s by simp
  next
    case (Cons d r')
    then have "isDecimalDigit d" using assms(2) s by simp
    then have "d \<noteq> 0x78" "d \<noteq> 0x58" by (rule isDecimalDigit_not_sign)+
    then show ?thesis using s Cons by simp
  qed
  have tw: "takeWhile (isRadixDigit 10) s = s"
    using assms(2) by (induction s) (simp_all add: isDecimalDigit_radix)
  have dw: "dropWhile isWhiteSpace s = s"
    using c s by (simp add: isDecimalDigit_not_space)
  have sg: "hd s \<noteq> 0x2D" "hd s \<noteq> 0x2B"
    using c s isDecimalDigit_not_sign [OF c] by simp_all
  show "parseInt s = toNumber (int (mathInt 10 s))"
    using assms(1) sg
    by (simp add: parseInt_def Let_def dw nohex tw)
  have ws: "\<not> isWhiteSpace 0x2D"
    by (simp add: isWhiteSpace_def)
  show "parseInt (0x2D # s) = toNumber (- int (mathInt 10 s))"
    using assms(1)
    by (simp add: parseInt_def Let_def ws nohex tw)
qed

lemma parseInt_toString: "parseInt (toString n) = toNumber n"
proof (cases "n < 0")
  case True
  then show ?thesis
    using parseInt_digits(2) [of "natToString (nat (- n))"] natToString_digits [of "nat (- n)"]
    by (simp add: toString_def mathInt_natToString)
next
  case False
  then show ?thesis
    using parseInt_digits(1) [of "natToString (nat n)"] natToString_digits [of "nat n"]
    by (simp add: toString_def mathInt_natToString)
qed

lemma parseInt_thirty: "parseInt (ascii ''thirty'') = NaN"
  by (simp add: parseInt_def ascii_def isWhiteSpace_def isRadixDigit_def digitValue_def)

lemma parseInt_leading:
  "parseInt (ascii ''12.5'') = Number 12" "parseInt (ascii ''30abc'') = Number 30"
  by code_simp+

section \<open>Age validation\<close>

text \<open>
  User U1 is asked for the age and sends the text \<open>12.5\<close>, which is not an integer:
  \<open>parseInt\<close> reads the leading 12, the handler stores age 12, the state becomes
  REGISTERED and the reply is the registration-completed text, not a validation error.
\<close>

theorem WAITING_AGE_accepts_leading_integer:
  "current_state (ascii ''U1'') age_world = WAITING_AGE \<and>
   parseInt (ascii ''12.5'') = Number 12 \<and>
   outcome (text_event (Some (ascii ''U1'')) (Some (ascii ''12.5'')) (Some (ascii ''T1'')))
     (ascii ''U1'') age_world =
     Some (REGISTERED,
           [reply_request (ascii ''T1'')
              (take 16 REGISTRATION_COMPLETED @ ascii ''Al'' @
               take 5 (drop 22 REGISTRATION_COMPLETED) @ ascii ''12'')]) \<and>
   map_option (stored_age (ascii ''U1''))
     (TextHandler_handle
        (text_event (Some (ascii ''U1'')) (Some (ascii ''12.5'')) (Some (ascii ''T1'')))
        age_world) = Some (Some 12)"
  by code_simp

text \<open>
  C5.  In state WAITING_AGE, on a store in reach and for a non-empty text: when
  \<open>parseInt\<close> of the text is \<open>NaN\<close> or a number outside [1,120], the reply is the
  validation error, the state stays WAITING_AGE and the Users sheet is unchanged; when
  it is a number in [1,120], the handler stores that number as the age and sets the
  state to REGISTERED, whatever the stored name is: both are written before the reply
  is built, and they are what a handler that returns leaves in the store.  \<open>parseInt\<close> of
  the decimal numeral of an integer of absolute value below \<open>2^53\<close> is that integer, so 0
  and 121 are rejected and 1 and 120 are accepted; \<open>parseInt\<close> of a text without a
  leading number, such as \<open>thirty\<close>, is \<open>NaN\<close>; and \<open>parseInt\<close> of a text that only starts
  with a number is that number, 12 for \<open>12.5\<close> and 30 for \<open>30abc\<close>.
\<close>

theorem WAITING_AGE_validation:
  assumes ok: "getSpreadsheet w = Inr ()"
    and src: "src_userId (ev_source e) = Some uid" "uid \<noteq> []"
    and tx: "event_text e = Some t" "t \<noteq> []"
    and st: "current_state uid w = WAITING_AGE"
  shows
    "(parseInt t = NaN \<or> parseInt t = Huge \<or> parseInt t = Minus_huge \<or>
      (\<exists>a. parseInt t = Number a \<and> (a < 1 \<or> 120 < a)) \<longrightarrow>
        outcome e uid w = Some (WAITING_AGE, [reply_request (token_of e) INVALID_AGE]) \<and>
        map_option Users (TextHandler_handle e w) = Some (Users w)) \<and>
     (parseInt t = Number a \<and> 1 \<le> a \<and> a \<le> 120 \<longrightarrow>
        current_state uid (written e w) = REGISTERED \<and>
        stored_age uid (written e w) = Some a \<and>
        (\<forall>w'. TextHandler_handle e w = Some w' \<longrightarrow>
           current_state uid w' = REGISTERED \<and> stored_age uid w' = Some a)) \<and>
     (\<bar>n\<bar> < 2 ^ 53 \<longrightarrow> parseInt (toString n) = Number n) \<and>
     parseInt (ascii ''thirty'') = NaN \<and>
     parseInt (ascii ''12.5'') = Number 12 \<and> parseInt (ascii ''30abc'') = Number 30"
proof -
  have inv: "outcome e uid w = Some (WAITING_AGE, [reply_request (token_of e) INVALID_AGE]) \<and>
        map_option Users (TextHandler_handle e w) = Some (Users w)"
    if "parseInt t = NaN \<or> parseInt t = Huge \<or> parseInt t = Minus_huge \<or>
      (\<exists>a. parseInt t = Number a \<and> (a < 1 \<or> 120 < a))"
  proof -
    have "\<forall>a. parseInt t = Number a \<longrightarrow> a < 1 \<or> 120 < a"
      using that by auto
    then show ?thesis
      using rows_WAITING_AGE(1,2) [OF ok src tx st] by simp
  qed
  have acc: "current_state uid (written e w) = REGISTERED \<and>
        stored_age uid (written e w) = Some a \<and>
        (\<forall>w'. TextHandler_handle e w = Some w' \<longrightarrow>
           current_state uid w' = REGISTERED \<and> stored_age uid w' = Some a)"
    if a: "parseInt t = Number a" "1 \<le> a" "a \<le> 120"
  proof -
    have wr: "current_state uid (written e w) = REGISTERED"
      "stored_age uid (written e w) = Some a"
      using rows_WAITING_AGE(3,4) [OF ok src tx st a] by simp_all
    have "current_state uid w' = REGISTERED \<and> stored_age uid w' = Some a"
      if "TextHandler_handle e w = Some w'" for w'
      using wr TextHandler_handle_written(2) [OF ok src tx that, of uid]
      by (simp add: current_state_def stored_age_def)
    then show ?thesis using wr by simp
  qed
  have num: "parseInt (toString n) = Number n" if "\<bar>n\<bar> < 2 ^ 53"
    using that by (simp add: parseInt_toString toNumber_def)
  show ?thesis
    using inv acc num parseInt_thirty parseInt_leading by blast
qed

theorem WAITING_AGE_validation_witness:
  "getSpreadsheet age_world = Inr () \<and>
   current_state (ascii ''U1'') age_world = WAITING_AGE \<and>
   parseInt (ascii ''thirty'') = NaN \<and>
   outcome (text_event (Some (ascii ''U1'')) (Some (ascii ''thirty'')) (Some (ascii ''T1'')))
     (ascii ''U1'') age_world =
     Some (WAITING_AGE, [reply_request (ascii ''T1'') INVALID_AGE]) \<and>
   parseInt (ascii ''120'') = Number 120 \<and>
   current_state (ascii ''U1'')
     (written (text_event (Some (ascii ''U1'')) (Some (ascii ''120'')) (Some (ascii ''T1'')))
        age_world) = REGISTERED \<and>
   stored_age (ascii ''U1'')
     (written (text_event (Some (ascii ''U1'')) (Some (ascii ''120'')) (Some (ascii ''T1'')))
        age_world) = Some 120 \<and>
   map_option (stored_age (ascii ''U1''))
     (TextHandler_handle
        (text_event (Some (ascii ''U1'')) (Some (ascii ''120'')) (Some (ascii ''T1'')))
        age_world) = Some (Some 120) \<and>
   \<bar>121 :: int\<bar> < 2 ^ 53 \<and> parseInt (toString 121) = Number 121"
proof -
  let ?e1 = "text_event (Some (ascii ''U1'')) (Some (ascii ''thirty'')) (Some (ascii ''T1''))"
  let ?e2 = "text_event (Some (ascii ''U1'')) (Some (ascii ''120'')) (Some (ascii ''T1''))"
  have ok: "getSpreadsheet age_world = Inr ()"
    by (simp add: getSpreadsheet_def age_world_def idle_world_def ascii_def)
  have st: "current_state (ascii ''U1'') age_world = WAITING_AGE"
    by code_simp
  have u: "ascii ''U1'' \<noteq> []" by (simp add: ascii_def)
  have e1: "src_userId (ev_source ?e1) = Some (ascii ''U1'')" "event_text ?e1 = Some (ascii ''thirty'')"
    "ascii ''thirty'' \<noteq> []" "token_of ?e1 = ascii ''T1''"
    by (simp_all add: text_event_def event_text_def token_of_def ascii_def)
  have e2: "src_userId (ev_source ?e2) = Some (ascii ''U1'')" "event_text ?e2 = Some (ascii ''120'')"
    "ascii ''120'' \<noteq> []"
    by (simp_all add: text_event_def event_text_def ascii_def)
  have p1: "parseInt (ascii ''thirty'') = NaN" and p2: "parseInt (ascii ''120'') = Number 120"
    by code_simp+
  have ret: "TextHandler_handle ?e2 age_world \<noteq> None"
    by code_simp
  have small: "\<bar>121 :: int\<bar> < 2 ^ 53" by simp
  note t1 = WAITING_AGE_validation [OF ok e1(1) u e1(2) e1(3) st, of 120 121, THEN conjunct1]
  note t2 = WAITING_AGE_validation [OF ok e2(1) u e2(2) e2(3) st, of 120 121, THEN conjunct2]
  have inv: "outcome ?e1 (ascii ''U1'') age_world =
      Some (WAITING_AGE, [reply_request (ascii ''T1'') INVALID_AGE])"
    using t1 p1 e1(4) by simp
  have acc: "current_state (ascii ''U1'') (written ?e2 age_world) = REGISTERED"
    "stored_age (ascii ''U1'') (written ?e2 age_world) = Some 120"
    "map_option (stored_age (ascii ''U1'')) (TextHandler_handle ?e2 age_world) = Some (Some 120)"
    "parseInt (toString 121) = Number 121"
    using t2 p2 ret small by auto
  show ?thesis
    using ok st p1 p2 inv acc small by simp
qed


section \<open>The transition table\<close>

text \<open>
  User U2 is stored in state INITIAL and sends a text message whose text is empty: the
  handler returns at its guard, the state stays INITIAL and no reply is sent, where the
  table has the welcome reply for every text that is neither keyword.
\<close>

theorem TextHandler_empty_text_no_reply:
  "current_user (ascii ''U2'') users_world \<noteq> None \<and>
   current_state (ascii ''U2'') users_world = INITIAL \<and>
   outcome (text_event (Some (ascii ''U2'')) (Some []) (Some (ascii ''T1''))) (ascii ''U2'')
     users_world = Some (INITIAL, [])"
  by code_simp

text \<open>
  C1.  On a store in reach, for a text message with a non-empty user id and a non-empty
  text, the state of the user (INITIAL for a user that is not stored yet, who is then
  created) and the class of the text determine the next state and the reply:
  INITIAL goes to WAITING_NAME with the registration-start reply on the register
  keyword and stays INITIAL otherwise, with the help reply on the help keyword and the
  welcome reply else; WAITING_NAME stays with the validation error when the trimmed
  text is shorter than 2 and goes to WAITING_AGE, storing the text as name, when it is
  not; WAITING_AGE stays with the validation error when \<open>parseInt\<close> of the text is \<open>NaN\<close> or
  outside [1,120] and goes to REGISTERED, storing the age, when it is inside;
  REGISTERED stays REGISTERED, with the help reply on the help keyword and the default
  reply otherwise, and leaves the Users sheet as it is.  In the two rows that move on
  from a name or an age, the state and the attribute are written for every such text,
  before the reply is built; the reply is what \<open>format\<close> makes of the template, whenever
  \<open>format\<close> returns, and for a name without dollar sign and opening brace it returns the
  template with the name, and the age, in the place of the placeholders.  A handler
  that returns leaves the Users sheet as it was written before the reply.
\<close>

theorem TextHandler_transition_table:
  assumes ok: "getSpreadsheet w = Inr ()"
    and src: "src_userId (ev_source e) = Some uid" "uid \<noteq> []"
    and tx: "event_text e = Some t" "t \<noteq> []"
  shows
    "(current_state uid w = INITIAL \<and> t = KEYWORD_REGISTER \<longrightarrow>
        outcome e uid w =
          Some (WAITING_NAME, [reply_request (token_of e) REGISTRATION_START])) \<and>
     (current_state uid w = INITIAL \<and> t = KEYWORD_HELP \<longrightarrow>
        outcome e uid w = Some (INITIAL, [reply_request (token_of e) HELP])) \<and>
     (current_state uid w = INITIAL \<and> t \<noteq> KEYWORD_REGISTER \<and> t \<noteq> KEYWORD_HELP \<longrightarrow>
        outcome e uid w = Some (INITIAL, [reply_request (token_of e) WELCOME])) \<and>
     (current_state uid w = WAITING_NAME \<and> length (trim t) < 2 \<longrightarrow>
        outcome e uid w = Some (WAITING_NAME, [reply_request (token_of e) INVALID_NAME])) \<and>
     (current_state uid w = WAITING_NAME \<and> 2 \<le> length (trim t) \<longrightarrow>
        current_state uid (written e w) = WAITING_AGE \<and>
        stored_name uid (written e w) = t \<and>
        (format NAME_CONFIRMED [(ascii ''name'', t)] = Some r \<longrightarrow>
           outcome e uid w = Some (WAITING_AGE, [reply_request (token_of e) r])) \<and>
        (plain_value t \<longrightarrow>
           format NAME_CONFIRMED [(ascii ''name'', t)] =
             Some (take 3 NAME_CONFIRMED @ t @ drop 9 NAME_CONFIRMED))) \<and>
     (current_state uid w = WAITING_AGE \<and>
      (parseInt t = NaN \<or> parseInt t = Huge \<or> parseInt t = Minus_huge \<or>
       (\<exists>a. parseInt t = Number a \<and> (a < 1 \<or> 120 < a))) \<longrightarrow>
        outcome e uid w = Some (WAITING_AGE, [reply_request (token_of e) INVALID_AGE])) \<and>
     (current_state uid w = WAITING_AGE \<and> parseInt t = Number a \<and> 1 \<le> a \<and> a \<le> 120 \<longrightarrow>
        current_state uid (written e w) = REGISTERED \<and>
        stored_age uid (written e w) = Some a \<and>
        (format REGISTRATION_COMPLETED
           [(ascii ''name'', stored_name uid w), (ascii ''age'', toString a)] = Some q \<longrightarrow>
           outcome e uid w = Some (REGISTERED, [reply_request (token_of e) q])) \<and>
        (plain_value (stored_name uid w) \<longrightarrow>
           format REGISTRATION_COMPLETED
             [(ascii ''name'', stored_name uid w), (ascii ''age'', toString a)] =
             Some (take 16 REGISTRATION_COMPLETED @ stored_name uid w @
                   take 5 (drop 22 REGISTRATION_COMPLETED) @ toString a))) \<and>
     (current_state uid w = REGISTERED \<and> t = KEYWORD_HELP \<longrightarrow>
        outcome e uid w = Some (REGISTERED, [reply_request (token_of e) HELP])) \<and>
     (current_state uid w = REGISTERED \<and> t \<noteq> KEYWORD_HELP \<longrightarrow>
        outcome e uid w = Some (REGISTERED, [reply_request (token_of e) DEFAULT_RESPONSE])) \<and>
     (current_state uid w = REGISTERED \<longrightarrow>
        map_option Users (TextHandler_handle e w) = Some (Users w)) \<and>
     (current_user uid w = None \<longrightarrow>
        current_state uid w = INITIAL \<and>
        (\<exists>w'. TextHandler_handle e w = Some w' \<and> current_user uid w' \<noteq> None)) \<and>
     (\<forall>w'. TextHandler_handle e w = Some w' \<longrightarrow> Users w' = Users (written e w))"
proof -
  note a = ok src tx
  have i1: "current_state uid w = INITIAL \<and> t = KEYWORD_REGISTER \<longrightarrow>
        outcome e uid w =
          Some (WAITING_NAME, [reply_request (token_of e) REGISTRATION_START])"
    using rows_INITIAL(1) [OF a] by simp
  have i2: "current_state uid w = INITIAL \<and> t = KEYWORD_HELP \<longrightarrow>
        outcome e uid w = Some (INITIAL, [reply_request (token_of e) HELP])"
    using rows_INITIAL(1) [OF a] by simp
  have i3: "current_state uid w = INITIAL \<and> t \<noteq> KEYWORD_REGISTER \<and> t \<noteq> KEYWORD_HELP \<longrightarrow>
        outcome e uid w = Some (INITIAL, [reply_request (token_of e) WELCOME])"
    using rows_INITIAL(1) [OF a] by simp
  have n1: "current_state uid w = WAITING_NAME \<and> length (trim t) < 2 \<longrightarrow>
        outcome e uid w = Some (WAITING_NAME, [reply_request (token_of e) INVALID_NAME])"
    using rows_WAITING_NAME(1) [OF a] by blast
  have n2: "current_state uid w = WAITING_NAME \<and> 2 \<le> length (trim t) \<longrightarrow>
        current_state uid (written e w) = WAITING_AGE \<and>
        stored_name uid (written e w) = t \<and>
        (format NAME_CONFIRMED [(ascii ''name'', t)] = Some r \<longrightarrow>
           outcome e uid w = Some (WAITING_AGE, [reply_request (token_of e) r])) \<and>
        (plain_value t \<longrightarrow>
           format NAME_CONFIRMED [(ascii ''name'', t)] =
             Some (take 3 NAME_CONFIRMED @ t @ drop 9 NAME_CONFIRMED))"
    using rows_WAITING_NAME(3,4,5) [OF a] format_NAME_CONFIRMED [of t] by blast
  have a1: "current_state uid w = WAITING_AGE \<and>
      (parseInt t = NaN \<or> parseInt t = Huge \<or> parseInt t = Minus_huge \<or>
       (\<exists>a. parseInt t = Number a \<and> (a < 1 \<or> 120 < a))) \<longrightarrow>
        outcome e uid w = Some (WAITING_AGE, [reply_request (token_of e) INVALID_AGE])"
  proof (intro impI, elim conjE)
    assume st: "current_state uid w = WAITING_AGE"
      and "parseInt t = NaN \<or> parseInt t = Huge \<or> parseInt t = Minus_huge \<or>
       (\<exists>a. parseInt t = Number a \<and> (a < 1 \<or> 120 < a))"
    then have "\<forall>a. parseInt t = Number a \<longrightarrow> a < 1 \<or> 120 < a"
      by auto
    then show "outcome e uid w = Some (WAITING_AGE, [reply_request (token_of e) INVALID_AGE])"
      by (rule rows_WAITING_AGE(1) [OF a st])
  qed
  have pa: "plain_value (toString a)" if "1 \<le> a"
    using that by (simp add: plain_toString)
  have a2: "current_state uid w = WAITING_AGE \<and> parseInt t = Number a \<and> 1 \<le> a \<and> a \<le> 120 \<longrightarrow>
        current_state uid (written e w) = REGISTERED \<and>
        stored_age uid (written e w) = Some a \<and>
        (format REGISTRATION_COMPLETED
           [(ascii ''name'', stored_name uid w), (ascii ''age'', toString a)] = Some q \<longrightarrow>
           outcome e uid w = Some (REGISTERED, [reply_request (token_of e) q])) \<and>
        (plain_value (stored_name uid w) \<longrightarrow>
           format REGISTRATION_COMPLETED
             [(ascii ''name'', stored_name uid w), (ascii ''age'', toString a)] =
             Some (take 16 REGISTRATION_COMPLETED @ stored_name uid w @
                   take 5 (drop 22 REGISTRATION_COMPLETED) @ toString a))"
    using rows_WAITING_AGE(3,4,6) [OF a]
      format_REGISTRATION_COMPLETED [of "stored_name uid w" "toString a"] pa
    by blast
  have r1: "current_state uid w = REGISTERED \<and> t = KEYWORD_HELP \<longrightarrow>
        outcome e uid w = Some (REGISTERED, [reply_request (token_of e) HELP])"
    using rows_REGISTERED(1) [OF a] by simp
  have r2: "current_state uid w = REGISTERED \<and> t \<noteq> KEYWORD_HELP \<longrightarrow>
        outcome e uid w = Some (REGISTERED, [reply_request (token_of e) DEFAULT_RESPONSE])"
    using rows_REGISTERED(1) [OF a] by simp
  have r3: "current_state uid w = REGISTERED \<longrightarrow>
        map_option Users (TextHandler_handle e w) = Some (Users w)"
    using rows_REGISTERED(2) [OF a] by blast
  have c: "current_user uid w = None \<longrightarrow>
        current_state uid w = INITIAL \<and>
        (\<exists>w'. TextHandler_handle e w = Some w' \<and> current_user uid w' \<noteq> None)"
    using rows_INITIAL(2) [OF a] by (simp add: current_state_def)
  have k: "\<forall>w'. TextHandler_handle e w = Some w' \<longrightarrow> Users w' = Users (written e w)"
    using TextHandler_handle_written(1) [OF a] by blast
  show ?thesis
    using i1 i2 i3 n1 n2 a1 a2 r1 r2 r3 c k by blast
qed


theorem TextHandler_transition_table_witness:
  "getSpreadsheet idle_world = Inr () \<and>
   current_state (ascii ''U1'') idle_world = INITIAL \<and>
   outcome (text_event (Some (ascii ''U1'')) (Some KEYWORD_REGISTER) (Some (ascii ''T1'')))
     (ascii ''U1'') idle_world =
     Some (WAITING_NAME, [reply_request (ascii ''T1'') REGISTRATION_START]) \<and>
   getSpreadsheet users_world = Inr () \<and>
   current_state (ascii ''U1'') users_world = WAITING_NAME \<and>
   2 \<le> length (trim (ascii ''Al'')) \<and> plain_value (ascii ''Al'') \<and>
   current_state (ascii ''U1'')
     (written (text_event (Some (ascii ''U1'')) (Some (ascii ''Al'')) (Some (ascii ''T1'')))
        users_world) = WAITING_AGE \<and>
   stored_name (ascii ''U1'')
     (written (text_event (Some (ascii ''U1'')) (Some (ascii ''Al'')) (Some (ascii ''T1'')))
        users_world) = ascii ''Al'' \<and>
   outcome (text_event (Some (ascii ''U1'')) (Some (ascii ''Al'')) (Some (ascii ''T1'')))
     (ascii ''U1'') users_world =
     Some (WAITING_AGE,
           [reply_request (ascii ''T1'')
              (take 3 NAME_CONFIRMED @ ascii ''Al'' @ drop 9 NAME_CONFIRMED)]) \<and>
   2 \<le> length (trim (ascii ''a$$b'')) \<and> \<not> plain_value (ascii ''a$$b'') \<and>
   format NAME_CONFIRMED [(ascii ''name'', ascii ''a$$b'')] =
     Some (take 3 NAME_CONFIRMED @ ascii ''a$b'' @ drop 9 NAME_CONFIRMED) \<and>
   stored_name (ascii ''U1'')
     (written (text_event (Some (ascii ''U1'')) (Some (ascii ''a$$b'')) (Some (ascii ''T1'')))
        users_world) = ascii ''a$$b'' \<and>
   outcome (text_event (Some (ascii ''U1'')) (Some (ascii ''a$$b'')) (Some (ascii ''T1'')))
     (ascii ''U1'') users_world =
     Some (WAITING_AGE,
           [reply_request (ascii ''T1'')
              (take 3 NAME_CONFIRMED @ ascii ''a$b'' @ drop 9 NAME_CONFIRMED)])"
proof -
  let ?e1 = "text_event (Some (ascii ''U1'')) (Some KEYWORD_REGISTER) (Some (ascii ''T1''))"
  let ?e2 = "text_event (Some (ascii ''U1'')) (Some (ascii ''Al'')) (Some (ascii ''T1''))"
  let ?e3 = "text_event (Some (ascii ''U1'')) (Some (ascii ''a$$b'')) (Some (ascii ''T1''))"
  let ?r2 = "take 3 NAME_CONFIRMED @ ascii ''Al'' @ drop 9 NAME_CONFIRMED"
  let ?r3 = "take 3 NAME_CONFIRMED @ ascii ''a$b'' @ drop 9 NAME_CONFIRMED"
  have ok1: "getSpreadsheet idle_world = Inr ()"
    by (simp add: getSpreadsheet_def idle_world_def ascii_def)
  have ok2: "getSpreadsheet users_world = Inr ()"
    by (simp add: getSpreadsheet_def users_world_def idle_world_def ascii_def)
  have st1: "current_state (ascii ''U1'') idle_world = INITIAL"
    and st2: "current_state (ascii ''U1'') users_world = WAITING_NAME"
    by code_simp+
  have u: "ascii ''U1'' \<noteq> []" by (simp add: ascii_def)
  have e1: "src_userId (ev_source ?e1) = Some (ascii ''U1'')" "event_text ?e1 = Some KEYWORD_REGISTER"
    "KEYWORD_REGISTER \<noteq> []" "token_of ?e1 = ascii ''T1''"
    by (simp_all add: text_event_def event_text_def token_of_def KEYWORD_REGISTER_def)
  have e2: "src_userId (ev_source ?e2) = Some (ascii ''U1'')" "event_text ?e2 = Some (ascii ''Al'')"
    "ascii ''Al'' \<noteq> []" "token_of ?e2 = ascii ''T1''"
    by (simp_all add: text_event_def event_text_def token_of_def ascii_def)
  have e3: "src_userId (ev_source ?e3) = Some (ascii ''U1'')" "event_text ?e3 = Some (ascii ''a$$b'')"
    "ascii ''a$$b'' \<noteq> []" "token_of ?e3 = ascii ''T1''"
    by (simp_all add: text_event_def event_text_def token_of_def ascii_def)
  have nm: "2 \<le> length (trim (ascii ''Al''))" "plain_value (ascii ''Al'')"
    by code_simp+
  have dl: "2 \<le> length (trim (ascii ''a$$b''))" "\<not> plain_value (ascii ''a$$b'')"
    "format NAME_CONFIRMED [(ascii ''name'', ascii ''a$$b'')] = Some ?r3"
    by code_simp+
  note t1 = TextHandler_transition_table [OF ok1 e1(1) u e1(2) e1(3), THEN conjunct1]
  note t2 = TextHandler_transition_table [OF ok2 e2(1) u e2(2) e2(3), where r = ?r2,
      THEN conjunct2, THEN conjunct2, THEN conjunct2, THEN conjunct2, THEN conjunct1]
  note t3 = TextHandler_transition_table [OF ok2 e3(1) u e3(2) e3(3), where r = ?r3,
      THEN conjunct2, THEN conjunct2, THEN conjunct2, THEN conjunct2, THEN conjunct1]
  have o1: "outcome ?e1 (ascii ''U1'') idle_world =
      Some (WAITING_NAME, [reply_request (ascii ''T1'') REGISTRATION_START])"
    using t1 st1 e1(4) by simp
  have o2: "current_state (ascii ''U1'') (written ?e2 users_world) = WAITING_AGE"
    "stored_name (ascii ''U1'') (written ?e2 users_world) = ascii ''Al''"
    "outcome ?e2 (ascii ''U1'') users_world =
       Some (WAITING_AGE, [reply_request (ascii ''T1'') ?r2])"
    using t2 st2 nm e2(4) by auto
  have o3: "stored_name (ascii ''U1'') (written ?e3 users_world) = ascii ''a$$b''"
    "outcome ?e3 (ascii ''U1'') users_world =
       Some (WAITING_AGE, [reply_request (ascii ''T1'') ?r3])"
    using t3 st2 dl e3(4) by auto
  show ?thesis
    using ok1 ok2 st1 st2 nm dl o1 o2 o3 by simp
qed


section \<open>A value that contains its own placeholder\<close>

lemma format_NAME_CONFIRMED_loops:
  "format NAME_CONFIRMED [(ascii ''name'', ascii ''{name}'')] = None"
proof -
  have "format_while (placeholder (ascii ''name'')) (ascii ''{name}'') NAME_CONFIRMED = None"
    by (rule format_while_loops)
       (simp_all add: includesStr_def replace_def placeholder_def ascii_def NAME_CONFIRMED_def)
  then show ?thesis by (simp add: format_def)
qed

lemma TextHandler_name_loops:
  assumes ok: "getSpreadsheet w = Inr ()"
    and src: "src_userId (ev_source e) = Some uid" "uid \<noteq> []"
    and tx: "event_text e = Some (ascii ''{name}'')"
    and st: "current_state uid w = WAITING_NAME"
  shows "TextHandler_handle e w = None"
proof -
  have ne: "ascii ''{name}'' \<noteq> []" by (simp add: ascii_def)
  obtain u w4 where p: "userId u = uid" "state u = current_state uid w"
    "getSpreadsheet w4 = Inr ()"
    and h: "TextHandler_handle e w =
       (case switch_state (ascii ''{name}'') u w4 of
          (None, w5) \<Rightarrow> None
        | (Some resp, w5) \<Rightarrow> Some (snd (replyText (token_of e) resp w5)))"
    by (rule TextHandler_handle_ok [OF ok src tx ne]) blast
  have len: "\<not> length (trim (ascii ''{name}'')) < 2"
    by (simp add: trim_def ascii_def isWhiteSpace_def)
  have "fst (switch_state (ascii ''{name}'') u w4) = None"
    using p st len by (simp add: switch_WAITING_NAME format_NAME_CONFIRMED_loops)
  then show ?thesis
    by (cases "switch_state (ascii ''{name}'') u w4") (simp add: h)
qed

text \<open>
  C9.  \<open>format\<close> on the template \<open>{name}\<close> with the parameter \<open>name\<close> bound to the text
  \<open>{name}\<close>: replacing the placeholder by the value gives the same text again, the text
  still includes the placeholder, and the loop never ends.  The occurrence is not
  replaced by the value with the rest left as it is, and the call does not return.
  The text handler reaches this call: user U1 is asked for the name and sends the text
  \<open>{name}\<close>, and the handler does not return.
\<close>

theorem format_self_reference_loops:
  "format (ascii ''{name}'') [(ascii ''name'', ascii ''{name}'')] = None \<and>
   current_state (ascii ''U1'') users_world = WAITING_NAME \<and>
   TextHandler_handle
     (text_event (Some (ascii ''U1'')) (Some (ascii ''{name}'')) (Some (ascii ''T1'')))
     users_world = None"
proof -
  have "format_while (placeholder (ascii ''name'')) (ascii ''{name}'') (ascii ''{name}'') = None"
    by (rule format_while_loops)
       (simp_all add: includesStr_def replace_def placeholder_def ascii_def)
  then have f: "format (ascii ''{name}'') [(ascii ''name'', ascii ''{name}'')] = None"
    by (simp add: format_def)
  have ok: "getSpreadsheet users_world = Inr ()"
    by (simp add: getSpreadsheet_def users_world_def idle_world_def ascii_def)
  have st: "current_state (ascii ''U1'') users_world = WAITING_NAME"
    by code_simp
  have u: "ascii ''U1'' \<noteq> []" by (simp add: ascii_def)
  have "TextHandler_handle
     (text_event (Some (ascii ''U1'')) (Some (ascii ''{name}'')) (Some (ascii ''T1'')))
     users_world = None"
    by (rule TextHandler_name_loops [OF ok _ u _ st])
       (simp_all add: text_event_def event_text_def)
  then show ?thesis using f st by simp
qed


end
